theory Spec2Isabelle
  imports Main "HOL-Library.Word"
begin

section \<open>Shared Go vocabulary\<close>

text \<open>
  Go's \<open>error\<close> values.  The translator asks one question of an error
  (\<open>apierrors.IsNotFound\<close>) and otherwise only prints or returns it, so an error is its
  message together with the one bit that question reads.  \<open>fmt.Errorf\<close> builds an
  ordinary error from the formatted message.
\<close>

datatype error = ErrNotFound string | ErrOther string

fun Error :: "error \<Rightarrow> string" where
  "Error (ErrNotFound msg) = msg"
| "Error (ErrOther msg) = msg"

fun IsNotFound :: "error \<Rightarrow> bool" where
  "IsNotFound (ErrNotFound msg) = True"
| "IsNotFound (ErrOther msg) = False"

definition Errorf :: "string \<Rightarrow> error" where
  "Errorf msg = ErrOther msg"

text \<open>
  \<open>strconv.Itoa\<close> and the \<open>%d\<close> verb: the decimal digits of an integer, with a leading
  minus sign for a negative one.
\<close>

fun FormatUint :: "nat \<Rightarrow> string" where
  "FormatUint n =
     (if n < 10 then [''0123456789'' ! n]
      else FormatUint (n div 10) @ [''0123456789'' ! (n mod 10)])"

declare FormatUint.simps [simp del]

definition Itoa :: "int \<Rightarrow> string" where
  "Itoa i = (if i < 0 then CHR ''-'' # FormatUint (nat (- i)) else FormatUint (nat i))"

type_synonym duration = int

definition Second :: duration where
  "Second = 1000000000"


section \<open>Package kubernetes: the gateway snapshot check\<close>

subsection \<open>The slice of net/http that the probe touches\<close>

record Request =
  Method :: string
  URL :: string
  Host :: string
  Body :: "string option"

record Response =
  StatusCode :: int
  Header :: "string \<rightharpoonup> string list"

text \<open>
  \<open>textproto.CanonicalMIMEHeaderKey\<close>: a key made of header-field bytes only gets an
  upper-case first letter and an upper-case letter after every hyphen, every other letter
  in lower case; any other key is left as it is.
\<close>

definition tokenBytes :: string where
  "tokenBytes =
     CHR 0x27 # ''!#$%&*+-.^_`|~0123456789abcdefghijklmnopqrstuvwxyzABCDEFGHIJKLMNOPQRSTUVWXYZ''"

definition validHeaderFieldByte :: "char \<Rightarrow> bool" where
  "validHeaderFieldByte c = (c \<in> set tokenBytes)"

definition toUpperASCII :: "char \<Rightarrow> char" where
  "toUpperASCII c =
     (case map_of (zip ''abcdefghijklmnopqrstuvwxyz'' ''ABCDEFGHIJKLMNOPQRSTUVWXYZ'') c of
        None \<Rightarrow> c | Some u \<Rightarrow> u)"

definition toLowerASCII :: "char \<Rightarrow> char" where
  "toLowerASCII c =
     (case map_of (zip ''ABCDEFGHIJKLMNOPQRSTUVWXYZ'' ''abcdefghijklmnopqrstuvwxyz'') c of
        None \<Rightarrow> c | Some l \<Rightarrow> l)"

fun canonicalMIMEHeaderKey :: "bool \<Rightarrow> string \<Rightarrow> string" where
  "canonicalMIMEHeaderKey upper [] = []"
| "canonicalMIMEHeaderKey upper (c # cs) =
     (if upper then toUpperASCII c else toLowerASCII c)
       # canonicalMIMEHeaderKey (c = CHR ''-'') cs"

definition CanonicalMIMEHeaderKey :: "string \<Rightarrow> string" where
  "CanonicalMIMEHeaderKey s =
     (if list_all validHeaderFieldByte s then canonicalMIMEHeaderKey True s else s)"

text \<open>\<open>Header.Get\<close>: the first value stored under the canonical key, or the empty string.\<close>

definition Header_Get :: "(string \<rightharpoonup> string list) \<Rightarrow> string \<Rightarrow> string" where
  "Header_Get h key =
     (case h (CanonicalMIMEHeaderKey key) of
        None \<Rightarrow> ''''
      | Some [] \<Rightarrow> ''''
      | Some (v # vs) \<Rightarrow> v)"

text \<open>
  The network and the URL parser are the environment of the check.  \<open>url_Parse\<close> is
  \<open>net/url.Parse\<close> as far as \<open>http.NewRequest\<close> uses it: an error for a malformed URL,
  the URL's host part otherwise.  \<open>client_Do\<close> is one round trip of the client built in
  \<open>CheckGatewaySnapshot\<close> (keep-alives disabled, \<open>httpClientTimeout\<close> per request): a
  transport error or a response.
\<close>

record httpEnv =
  url_Parse :: "string \<Rightarrow> error + string"
  client_Do :: "Request \<Rightarrow> error + Response"

definition NewRequest :: "httpEnv \<Rightarrow> string \<Rightarrow> string \<Rightarrow> string option \<Rightarrow> error + Request" where
  "NewRequest env method url body =
     (case url_Parse env url of
        Inl err \<Rightarrow> Inl err
      | Inr h \<Rightarrow> Inr \<lparr>Method = method, URL = url, Host = h, Body = body\<rparr>)"

definition StatusOK :: int where
  "StatusOK = 200"

subsection \<open>Constants\<close>

definition httpClientTimeout :: duration where
  "httpClientTimeout = 2 * Second"

definition gatewaySyncTimeout :: duration where
  "gatewaySyncTimeout = 3 * Second"

definition httpPortInternal :: "32 word" where
  "httpPortInternal = 8081"

definition internalKourierPath :: string where
  "internalKourierPath = ''/__internalkouriersnapshot''"

definition internalKourierDomain :: string where
  "internalKourierDomain = ''internalkourier''"

definition internalKourierHeader :: string where
  "internalKourierHeader = ''kourier-snapshot-id''"

subsection \<open>The probe\<close>

text \<open>
  \<open>buildInternalKourierRequest\<close>.  On a failure the source returns an empty request
  beside the error; the one caller drops it, so the model returns the error alone.
\<close>

definition buildInternalKourierRequest :: "httpEnv \<Rightarrow> string \<Rightarrow> error + Request" where
  "buildInternalKourierRequest env ip =
     (let port = Itoa (uint httpPortInternal) in
      case NewRequest env ''GET'' (''http://'' @ ip @ '':'' @ port @ internalKourierPath) None of
        Inl err \<Rightarrow> Inl err
      | Inr req \<Rightarrow> Inr (req\<lparr>Host := internalKourierDomain\<rparr>))"

definition getCurrentGWSnapshot :: "httpEnv \<Rightarrow> string \<Rightarrow> error + string" where
  "getCurrentGWSnapshot env ip =
     (case buildInternalKourierRequest env ip of
        Inl err \<Rightarrow> Inl err
      | Inr req \<Rightarrow>
          (case client_Do env req of
             Inl err \<Rightarrow> Inl err
           | Inr resp \<Rightarrow>
               if StatusCode resp = StatusOK
               then Inr (Header_Get (Header resp) internalKourierHeader)
               else Inl (Errorf (''status code '' @ Itoa (StatusCode resp)))))"

subsection \<open>The fan-out and the wait\<close>

text \<open>
  \<open>inSync\<close>, \<open>wg\<close> and \<open>mutex\<close> are variables of the package: every call of
  \<open>CheckGatewaySnapshot\<close> and every goroutine that any call has started work on the
  same counter and the same wait group.  The state of the package is therefore an
  argument and a result of the model.  The mutex makes every update of the counter one
  step; the wait group's own counter is \<open>pkg_wg\<close>.
\<close>

record package =
  pkg_inSync :: nat
  pkg_wg :: int

text \<open>
  The steps on the package state that can happen while one call waits:
  \<^item> \<open>Probe k\<close>: the \<open>k\<close>-th goroutine of this call runs \<open>getCurrentGWSnapshot\<close> and
    counts the replica if its snapshot is the expected one;
  \<^item> \<open>Done k\<close>: the deferred \<open>wg.Done()\<close> of that goroutine;
  \<^item> \<open>ForeignCount\<close> and \<open>ForeignDone\<close>: the same two steps of a goroutine that another
    call has started (one that the other call left behind at its deadline, or one of a
    call that runs at the same time);
  \<^item> \<open>ForeignCall m\<close>: another call with \<open>m\<close> addresses passes its
    \<open>inSync = 0; wg.Add(m)\<close>.
\<close>

datatype action = Probe nat | Done nat | ForeignCount | ForeignDone | ForeignCall nat

text \<open>
  What the scheduler and the clock decide is an input of the model.  \<open>actions\<close> are the
  steps between this call's \<open>wg.Add\<close> and its deadline, in the order in which they
  happen; \<open>late\<close> are the steps that slip in between the release of the waiter and the
  read of \<open>inSync\<close>.  The closure of a goroutine captures the loop variable \<open>ip\<close>, not
  a copy of it, so a goroutine probes the address that the variable holds when the
  goroutine gets to run: \<open>delay k\<close> is the number of iterations that the launching loop
  has gone on by then (the variable keeps the last address once the loop is over).
\<close>

record schedule =
  delay :: "nat \<Rightarrow> nat"
  actions :: "action list"
  late :: "action list"

record Pod =
  PodIP :: string

definition observed :: "schedule \<Rightarrow> string list \<Rightarrow> nat \<Rightarrow> string" where
  "observed sched ips k = ips ! min (k + delay sched k) (length ips - 1)"

text \<open>
  The body of one goroutine, as its effect on the shared counter \<open>inSync\<close>.  The
  \<open>logrus.Errorf\<close> of the failure branch changes nothing the check returns.
\<close>

definition probe :: "httpEnv \<Rightarrow> string \<Rightarrow> string \<Rightarrow> nat \<Rightarrow> nat" where
  "probe env ip snapshotID inSync =
     (case getCurrentGWSnapshot env ip of
        Inl err \<Rightarrow> inSync
      | Inr currentSnapshot \<Rightarrow>
          if currentSnapshot = snapshotID then inSync + 1 else inSync)"

definition step ::
  "httpEnv \<Rightarrow> schedule \<Rightarrow> string list \<Rightarrow> string \<Rightarrow> action \<Rightarrow> package \<Rightarrow> package" where
  "step env sched ips snapshotID a pkg =
     (case a of
        Probe k \<Rightarrow>
          pkg\<lparr>pkg_inSync := probe env (observed sched ips k) snapshotID (pkg_inSync pkg)\<rparr>
      | Done k \<Rightarrow> pkg\<lparr>pkg_wg := pkg_wg pkg - 1\<rparr>
      | ForeignCount \<Rightarrow> pkg\<lparr>pkg_inSync := pkg_inSync pkg + 1\<rparr>
      | ForeignDone \<Rightarrow> pkg\<lparr>pkg_wg := pkg_wg pkg - 1\<rparr>
      | ForeignCall m \<Rightarrow> pkg\<lparr>pkg_inSync := 0, pkg_wg := pkg_wg pkg + int m\<rparr>)"

text \<open>
  \<open>waitTimeout\<close> races \<open>wg.Wait()\<close> against the timer and returns true when the timer
  wins.  The waiter is released as soon as the counter of the wait group is zero; the
  timer fires when the steps before the deadline are used up.  The second component is
  the package state at that moment.
\<close>

fun waitTimeout :: "(action \<Rightarrow> package \<Rightarrow> package) \<Rightarrow> action list \<Rightarrow> package \<Rightarrow> bool \<times> package" where
  "waitTimeout run [] pkg = (pkg_wg pkg \<noteq> 0, pkg)"
| "waitTimeout run (a # rest) pkg =
     (if pkg_wg pkg = 0 then (False, pkg) else waitTimeout run rest (run a pkg))"

definition CheckGatewaySnapshot ::
  "httpEnv \<Rightarrow> schedule \<Rightarrow> package \<Rightarrow> Pod list \<Rightarrow> string \<Rightarrow> (bool \<times> error option) \<times> package" where
  "CheckGatewaySnapshot env sched pkg gwPods snapshotID =
     (let ips = map PodIP (filter (\<lambda>pod. PodIP pod \<noteq> '''') gwPods) in
      if length ips = 0 then ((False, None), pkg)
      else
        let started = pkg\<lparr>pkg_inSync := 0, pkg_wg := pkg_wg pkg + int (length ips)\<rparr>;
            run = step env sched ips snapshotID
        in case waitTimeout run (actions sched) started of
             (True, atDeadline) \<Rightarrow> ((False, None), atDeadline)
           | (False, released) \<Rightarrow>
               let atReturn = foldl (\<lambda>p a. run a p) released (late sched)
               in ((pkg_inSync atReturn = length ips, None), atReturn))"


section \<open>Package generator: translating an ingress\<close>

subsection \<open>The ingress, as the translator reads it\<close>

text \<open>
  \<open>intstr.IntOrString\<close>: \<open>Type\<close> says which of the two values was declared; the
  translator reads both values and never the type tag.  A Go \<open>int32\<close> is a
  \<open>32 word\<close> and a Go \<open>int\<close> a \<open>64 word\<close>; the conversions \<open>uint32(x)\<close> keep the
  low 32 bits.
\<close>

datatype IntstrType = Intstr_Int | Intstr_String

record IntOrString =
  Type :: IntstrType
  IntVal :: "32 word"
  StrVal :: string

record IngressBackendSplit =
  ServiceNamespace :: string
  ServiceName :: string
  ServicePort :: IntOrString
  Percent :: "64 word"
  Split_AppendHeaders :: "string \<rightharpoonup> string"

record HTTPRetry =
  Attempts :: "64 word"
  PerTryTimeout :: "duration option"

record HTTPIngressPath =
  Path :: string
  Splits :: "IngressBackendSplit list"
  Path_AppendHeaders :: "string \<rightharpoonup> string"
  Timeout :: "duration option"
  Retries :: "HTTPRetry option"

record HTTPIngressRuleValue =
  Paths :: "HTTPIngressPath list"

text \<open>\<open>HTTP\<close> is a pointer in the source: \<open>None\<close> is \<open>nil\<close>.\<close>

record IngressRule =
  Rule_Hosts :: "string list"
  Rule_Visibility :: string
  HTTP :: "HTTPIngressRuleValue option"

record IngressTLS =
  TLS_Hosts :: "string list"
  SecretName :: string
  SecretNamespace :: string

record IngressSpec =
  TLS :: "IngressTLS list"
  Rules :: "IngressRule list"
  Visibility :: string

record Ingress =
  Name :: string
  Namespace :: string
  Labels :: "string \<rightharpoonup> string"
  Spec :: IngressSpec

definition IngressVisibilityClusterLocal :: string where
  "IngressVisibilityClusterLocal = ''ClusterLocal''"

subsection \<open>The cluster objects the translator fetches\<close>

record ServicePort =
  Port_Name :: string
  Port :: "32 word"
  TargetPort :: IntOrString

record Service =
  Ports :: "ServicePort list"

record EndpointSubset =
  Addresses :: "string list"

record Endpoints =
  Subsets :: "EndpointSubset list"

record ObjectReference =
  Ref_Kind :: string
  Ref_APIVersion :: string
  Ref_Namespace :: string
  Ref_Name :: string

subsection \<open>The envoy objects the translator builds\<close>

text \<open>
  Modelled from the spec: the constructors of package \<open>envoy\<close> (\<open>NewCluster\<close>,
  \<open>NewWeightedCluster\<close>, \<open>NewRoute\<close>, \<open>NewVirtualHost\<close>,
  \<open>NewVirtualHostWithExtAuthz\<close>, \<open>NewLBEndpoint\<close>, \<open>NewSNIMatch\<close>) are called by
  the translator but their source is missing.  The spec's data model lists what each
  object holds (a cluster: name, connect timeout, backends, protocol; a route: name, path,
  weighted cluster refs, timeout, retry policy, header injections; a virtual host: domains
  and routes; an SNI match: hosts, certificate chain, private key), which is what the
  translator passes.  Each constructor is kept as a free constructor holding its
  arguments, in the order of the call.
\<close>

datatype LbEndpoint = NewLBEndpoint string "32 word"

datatype DiscoveryType = Cluster_STATIC

datatype Cluster =
  NewCluster (Cluster_name: string) (Cluster_connectTimeout: duration)
    (Cluster_lbEndpoints: "LbEndpoint list") (Cluster_isHTTP2: bool)
    (Cluster_discoveryType: DiscoveryType)

datatype WeightedCluster =
  NewWeightedCluster (WeightedCluster_name: string) (WeightedCluster_weight: "32 word")
    (WeightedCluster_headers: "string \<rightharpoonup> string")

datatype Route =
  NewRoute (Route_name: string) (Route_path: string) (Route_wrs: "WeightedCluster list")
    (Route_timeout: duration) (Route_attempts: "32 word") (Route_perTryTimeout: duration)
    (Route_headers: "string \<rightharpoonup> string")

datatype VirtualHost =
    NewVirtualHost string "string list" "Route list"
  | NewVirtualHostWithExtAuthz string "string \<rightharpoonup> string" "string list" "Route list"



datatype SNIMatch = NewSNIMatch "string list" string string

subsection \<open>The translator and its collaborators\<close>

text \<open>
  The fields of \<open>IngressTranslator\<close>, each collaborator as the one call the translator
  makes on it: \<open>kubeclient\<close> is \<open>CoreV1().Services(namespace).Get(name, ...)\<close>,
  \<open>endpointsLister\<close> is \<open>Endpoints(namespace).Get(name)\<close>, and \<open>tracker\<close>, which may
  be \<open>nil\<close>, is \<open>Track(ref, ingress)\<close>.  \<open>logger\<close> is a pointer: \<open>None\<close> is
  \<open>nil\<close>, and a call of \<open>Errorf\<close> or \<open>Infof\<close> through a \<open>nil\<close> logger is a
  run-time panic.  A logger that is there is a write-only sink: what is written to it is
  part of the trace below.
\<close>

datatype SugaredLogger = SugaredLogger

record IngressTranslator =
  kubeclient :: "string \<Rightarrow> string \<Rightarrow> error + Service"
  endpointsLister :: "string \<Rightarrow> string \<Rightarrow> error + Endpoints"
  localDomainName :: string
  tracker :: "(ObjectReference \<Rightarrow> Ingress \<Rightarrow> error option) option"
  logger :: "SugaredLogger option"

text \<open>\<open>NewIngressTranslator\<close> sets four of the five fields; \<open>logger\<close> stays \<open>nil\<close>.\<close>

definition NewIngressTranslator ::
  "(string \<Rightarrow> string \<Rightarrow> error + Service) \<Rightarrow> (string \<Rightarrow> string \<Rightarrow> error + Endpoints) \<Rightarrow> string \<Rightarrow>
   (ObjectReference \<Rightarrow> Ingress \<Rightarrow> error option) option \<Rightarrow> IngressTranslator" where
  "NewIngressTranslator kubeclient' endpointsLister' localDomainName' tracker' =
     \<lparr>kubeclient = kubeclient', endpointsLister = endpointsLister',
      localDomainName = localDomainName', tracker = tracker', logger = None\<rparr>"

text \<open>
  Functions of this repository that \<open>translateIngress\<close> calls and whose source is
  missing; they are parameters of the model.  \<open>sslCreds\<close> is applied to the
  translator's client, a secret namespace and a secret name and yields the certificate
  chain and the private key; the other three are functions of package \<open>knative\<close>.
\<close>

record deps =
  sslCreds :: "string \<Rightarrow> string \<Rightarrow> error + string \<times> string"
  ExternalDomains :: "IngressRule \<Rightarrow> string \<Rightarrow> string list"
  InternalDomains :: "IngressRule \<Rightarrow> string \<Rightarrow> string list"
  RuleIsExternal :: "IngressRule \<Rightarrow> string \<Rightarrow> bool"

text \<open>
  What a call of \<open>translateIngress\<close> does besides returning: the calls on its
  collaborators and the lines it logs, in program order.
\<close>

datatype event =
    Call_sslCreds string string
  | Call_Track ObjectReference
  | Call_EndpointsGet string string
  | Call_ServicesGet string string
  | Log_Errorf string
  | Log_Infof string

record translatedIngress =
  ingressName :: string
  ingressNamespace :: string
  sniMatches :: "SNIMatch list"
  routes :: "Route list"
  clusters :: "Cluster list"
  externalVirtualHosts :: "VirtualHost list"
  internalVirtualHosts :: "VirtualHost list"

text \<open>
  The three ways a call ends: \<open>return &res, nil\<close>, \<open>return nil, err\<close>, and a run-time
  panic: reading \<open>rule.HTTP.Paths\<close> through a \<open>nil\<close> pointer, or logging through a
  \<open>nil\<close> logger.
\<close>

datatype outcome = Returned translatedIngress | Failed error | Panic

definition newTranslatedIngress :: "string \<Rightarrow> string \<Rightarrow> translatedIngress" where
  "newTranslatedIngress name namespace =
     \<lparr>ingressName = name, ingressNamespace = namespace, sniMatches = [], routes = [],
      clusters = [], externalVirtualHosts = [], internalVirtualHosts = []\<rparr>"


subsection \<open>Helpers\<close>

definition quoted :: "string \<Rightarrow> string \<Rightarrow> string" where
  "quoted namespace name = CHR 0x27 # namespace @ ''/'' @ name @ [CHR 0x27]"

definition mergeMapString ::
  "(string \<rightharpoonup> string) \<Rightarrow> (string \<rightharpoonup> string) \<Rightarrow> (string \<rightharpoonup> string)" where
  "mergeMapString a b = (Map.empty ++ a) ++ b"

definition lbEndpointsForKubeEndpoints :: "Endpoints \<Rightarrow> 32 word \<Rightarrow> LbEndpoint list" where
  "lbEndpointsForKubeEndpoints kubeEndpoints targetPort =
     concat (map (\<lambda>subset. map (\<lambda>address. NewLBEndpoint address targetPort) (Addresses subset))
       (Subsets kubeEndpoints))"

definition createRouteForRevision ::
  "string \<Rightarrow> int \<Rightarrow> HTTPIngressPath \<Rightarrow> WeightedCluster list \<Rightarrow> Route" where
  "createRouteForRevision routeName i httpPath wrs =
     (let name = routeName @ ''_'' @ Itoa i;
          path = (if Path httpPath \<noteq> '''' then Path httpPath else ''/'');
          routeTimeout = (case Timeout httpPath of None \<Rightarrow> 0 | Some d \<Rightarrow> d);
          attempts = (case Retries httpPath of None \<Rightarrow> 0 | Some r \<Rightarrow> Attempts r);
          perTryTimeout =
            (case Retries httpPath of
               None \<Rightarrow> 0
             | Some r \<Rightarrow> (case PerTryTimeout r of None \<Rightarrow> 0 | Some d \<Rightarrow> d))
      in NewRoute name path wrs routeTimeout (ucast attempts) perTryTimeout
           (Path_AppendHeaders httpPath))"

definition sniMatchFromIngressTLS :: "deps \<Rightarrow> IngressTLS \<Rightarrow> event list \<times> (error + SNIMatch)" where
  "sniMatchFromIngressTLS d ingressTLS =
     ([Call_sslCreds (SecretNamespace ingressTLS) (SecretName ingressTLS)],
      case sslCreds d (SecretNamespace ingressTLS) (SecretName ingressTLS) of
        Inl err \<Rightarrow> Inl err
      | Inr (certChain, privateKey) \<Rightarrow>
          Inr (NewSNIMatch (TLS_Hosts ingressTLS) certChain privateKey))"

subsection \<open>The loops of translateIngress\<close>

text \<open>
  The loop over \<open>service.Spec.Ports\<close>: every matching port overwrites \<open>targetPort\<close>
  and \<open>http2\<close>; the loop has no exit of its own.
\<close>

fun portsLoop :: "IntOrString \<Rightarrow> ServicePort list \<Rightarrow> 32 word \<times> bool \<Rightarrow> 32 word \<times> bool" where
  "portsLoop servicePort [] (targetPort, http2) = (targetPort, http2)"
| "portsLoop servicePort (port # rest) (targetPort, http2) =
     (if Port port = IntVal servicePort \<or> Port_Name port = StrVal servicePort
      then portsLoop servicePort rest
             (IntVal (TargetPort port), Port_Name port = ''http2'' \<or> Port_Name port = ''h2c'')
      else portsLoop servicePort rest (targetPort, http2))"

text \<open>
  One pass through the body of the loop over \<open>httpPath.Splits\<close>: it leaves the loop
  (\<open>break\<close>), or builds a cluster and its weighted cluster, or panics where it logs
  through a \<open>nil\<close> logger.
\<close>

datatype splitStep =
    Break
  | Emit (emitted_cluster: Cluster) (emitted_weightedCluster: WeightedCluster)
  | NilLogger

definition trackSplit ::
  "IngressTranslator \<Rightarrow> Ingress \<Rightarrow> ObjectReference \<Rightarrow> event list \<times> error option" where
  "trackSplit translator ingress ref =
     (case tracker translator of
        None \<Rightarrow> ([], None)
      | Some Track \<Rightarrow> ([Call_Track ref], Track ref ingress))"

text \<open>
  The two statements that end each of the five failure branches: a call on
  \<open>translator.logger\<close>, then \<open>break\<close>.  \<open>events\<close> are the events of the pass so far.
\<close>

definition logAndBreak :: "IngressTranslator \<Rightarrow> event list \<Rightarrow> event \<Rightarrow> event list \<times> splitStep" where
  "logAndBreak translator events line =
     (case logger translator of
        None \<Rightarrow> (events, NilLogger)
      | Some sink \<Rightarrow> (events @ [line], Break))"

definition translateSplit ::
  "IngressTranslator \<Rightarrow> Ingress \<Rightarrow> string \<Rightarrow> IngressBackendSplit \<Rightarrow> event list \<times> splitStep" where
  "translateSplit translator ingress path split =
     (let headersSplit = Split_AppendHeaders split;
          ref = \<lparr>Ref_Kind = ''Endpoints'', Ref_APIVersion = ''v1'',
                 Ref_Namespace = Namespace ingress, Ref_Name = ServiceName split\<rparr>;
          ns = ServiceNamespace split;
          name = ServiceName split
      in case trackSplit translator ingress ref of
           (tracked, Some err) \<Rightarrow> logAndBreak translator tracked (Log_Errorf (Error err))
         | (tracked, None) \<Rightarrow>
             (case endpointsLister translator ns name of
                Inl err \<Rightarrow>
                  if IsNotFound err
                  then logAndBreak translator (tracked @ [Call_EndpointsGet ns name])
                         (Log_Infof (''Endpoints '' @ quoted ns name @ '' not yet created''))
                  else logAndBreak translator (tracked @ [Call_EndpointsGet ns name])
                         (Log_Errorf (''Failed to fetch endpoints '' @ quoted ns name @ '': ''
                            @ Error err))
              | Inr endpoints \<Rightarrow>
                  (case kubeclient translator ns name of
                     Inl err \<Rightarrow>
                       if IsNotFound err
                       then logAndBreak translator
                              (tracked @ [Call_EndpointsGet ns name, Call_ServicesGet ns name])
                              (Log_Infof (''Service '' @ quoted ns name @ '' not yet created''))
                       else logAndBreak translator
                              (tracked @ [Call_EndpointsGet ns name, Call_ServicesGet ns name])
                              (Log_Errorf (''Failed to fetch service '' @ quoted ns name @ '': ''
                                 @ Error err))
                   | Inr service \<Rightarrow>
                       (case portsLoop (ServicePort split) (Ports service) (0, False) of
                          (targetPort, http2) \<Rightarrow>
                            let publicLbEndpoints = lbEndpointsForKubeEndpoints endpoints targetPort;
                                connectTimeout = 5 * Second;
                                cluster = NewCluster (ServiceName split @ path) connectTimeout
                                            publicLbEndpoints http2 Cluster_STATIC;
                                weightedCluster = NewWeightedCluster (ServiceName split @ path)
                                                    (ucast (Percent split)) headersSplit
                            in (tracked @ [Call_EndpointsGet ns name, Call_ServicesGet ns name],
                                Emit cluster weightedCluster)))))"

text \<open>
  The loop over \<open>httpPath.Splits\<close>, on the variables it assigns: \<open>res\<close> (its
  \<open>clusters\<close>), \<open>wrs\<close>, and the trace.  \<open>Inr\<close> is the state after the loop, \<open>Inl\<close>
  the trace up to a panic.
\<close>

fun splitsLoop ::
  "IngressTranslator \<Rightarrow> Ingress \<Rightarrow> string \<Rightarrow> IngressBackendSplit list \<Rightarrow>
   translatedIngress \<times> WeightedCluster list \<times> event list \<Rightarrow>
   event list + translatedIngress \<times> WeightedCluster list \<times> event list" where
  "splitsLoop translator ingress path [] (res, wrs, trace) = Inr (res, wrs, trace)"
| "splitsLoop translator ingress path (split # rest) (res, wrs, trace) =
     (case translateSplit translator ingress path split of
        (events, Break) \<Rightarrow> Inr (res, wrs, trace @ events)
      | (events, Emit cluster weightedCluster) \<Rightarrow>
          splitsLoop translator ingress path rest
            (res\<lparr>clusters := clusters res @ [cluster]\<rparr>, wrs @ [weightedCluster],
             trace @ events)
      | (events, NilLogger) \<Rightarrow> Inl (trace @ events))"

text \<open>
  The loop over \<open>rule.HTTP.Paths\<close>, on \<open>res\<close>, \<open>ruleRoute\<close> and the trace.
\<close>

fun pathsLoop ::
  "IngressTranslator \<Rightarrow> Ingress \<Rightarrow> int \<Rightarrow> HTTPIngressPath list \<Rightarrow>
   translatedIngress \<times> Route list \<times> event list \<Rightarrow>
   event list + translatedIngress \<times> Route list \<times> event list" where
  "pathsLoop translator ingress index [] (res, ruleRoute, trace) = Inr (res, ruleRoute, trace)"
| "pathsLoop translator ingress index (httpPath # rest) (res, ruleRoute, trace) =
     (let path = (if Path httpPath \<noteq> '''' then Path httpPath else ''/'') in
      case splitsLoop translator ingress path (Splits httpPath) (res, [], trace) of
        Inl panicked \<Rightarrow> Inl panicked
      | Inr (res', wrs, trace') \<Rightarrow>
          if length wrs \<noteq> 0
          then let r = createRouteForRevision (Name ingress) index httpPath wrs in
               pathsLoop translator ingress index rest
                 (res'\<lparr>routes := routes res' @ [r]\<rparr>, ruleRoute @ [r], trace')
          else pathsLoop translator ingress index rest (res', ruleRoute, trace'))"

text \<open>
  The two virtual hosts of a Rule, from \<open>externalDomains\<close> to the end of the
  \<open>if extAuthzEnabled\<close>: the external one first, the internal one second.
\<close>

definition virtualHosts ::
  "deps \<Rightarrow> IngressTranslator \<Rightarrow> Ingress \<Rightarrow> bool \<Rightarrow> IngressRule \<Rightarrow> Route list \<Rightarrow>
   VirtualHost \<times> VirtualHost" where
  "virtualHosts d translator ingress extAuthzEnabled rule ruleRoute =
     (let externalDomains = ExternalDomains d rule (localDomainName translator);
          internalDomains = InternalDomains d rule (localDomainName translator) @ externalDomains
      in if extAuthzEnabled
         then
           let visibility = (if Visibility (Spec ingress) = ''''
                             then IngressVisibilityClusterLocal
                             else Visibility (Spec ingress));
               ContextExtensions =
                 mergeMapString [''client'' \<mapsto> ''kourier'', ''visibility'' \<mapsto> visibility]
                   (Labels ingress)
           in (NewVirtualHostWithExtAuthz (Name ingress) ContextExtensions externalDomains ruleRoute,
               NewVirtualHostWithExtAuthz (Name ingress) ContextExtensions internalDomains ruleRoute)
         else (NewVirtualHost (Name ingress) externalDomains ruleRoute,
               NewVirtualHost (Name ingress) internalDomains ruleRoute))"

text \<open>The loop over the Rules, with its ways out before the end.\<close>

fun rulesLoop ::
  "deps \<Rightarrow> IngressTranslator \<Rightarrow> Ingress \<Rightarrow> int \<Rightarrow> bool \<Rightarrow> IngressRule list \<Rightarrow>
   translatedIngress \<times> event list \<Rightarrow> event list \<times> outcome" where
  "rulesLoop d translator ingress index extAuthzEnabled [] (res, trace) = (trace, Returned res)"
| "rulesLoop d translator ingress index extAuthzEnabled (rule # rest) (res, trace) =
     (case HTTP rule of
        None \<Rightarrow> (trace, Panic)
      | Some http \<Rightarrow>
          (case pathsLoop translator ingress index (Paths http) (res, [], trace) of
             Inl panicked \<Rightarrow> (panicked, Panic)
           | Inr (res', ruleRoute, trace') \<Rightarrow>
               if length ruleRoute = 0
               then (trace', Failed (Errorf ''ingress without routes''))
               else
                 (case virtualHosts d translator ingress extAuthzEnabled rule ruleRoute of
                    (virtualHost, internalVirtualHost) \<Rightarrow>
                      let res'' =
                            (if RuleIsExternal d rule (Visibility (Spec ingress))
                             then res'\<lparr>externalVirtualHosts :=
                                         externalVirtualHosts res' @ [virtualHost]\<rparr>
                             else res')
                      in rulesLoop d translator ingress index extAuthzEnabled rest
                           (res''\<lparr>internalVirtualHosts :=
                                    internalVirtualHosts res'' @ [internalVirtualHost]\<rparr>,
                            trace'))))"

text \<open>
  The loop over the TLS entries: the first failing entry ends the whole call, after the
  error has been logged.  \<open>Returned res\<close> is the state after the loop.
\<close>

fun tlsLoop ::
  "deps \<Rightarrow> IngressTranslator \<Rightarrow> IngressTLS list \<Rightarrow> translatedIngress \<times> event list \<Rightarrow>
   event list \<times> outcome" where
  "tlsLoop d translator [] (res, trace) = (trace, Returned res)"
| "tlsLoop d translator (ingressTLS # rest) (res, trace) =
     (case sniMatchFromIngressTLS d ingressTLS of
        (events, Inl err) \<Rightarrow>
          (case logger translator of
             None \<Rightarrow> (trace @ events, Panic)
           | Some sink \<Rightarrow> (trace @ events @ [Log_Errorf (Error err)], Failed err))
      | (events, Inr sniMatch) \<Rightarrow>
          tlsLoop d translator rest
            (res\<lparr>sniMatches := sniMatches res @ [sniMatch]\<rparr>, trace @ events))"

definition translateIngress ::
  "deps \<Rightarrow> IngressTranslator \<Rightarrow> Ingress \<Rightarrow> int \<Rightarrow> bool \<Rightarrow> event list \<times> outcome" where
  "translateIngress d translator ingress index extAuthzEnabled =
     (let res = newTranslatedIngress (Name ingress) (Namespace ingress) in
      case tlsLoop d translator (TLS (Spec ingress)) (res, []) of
        (trace, Returned res') \<Rightarrow>
          rulesLoop d translator ingress index extAuthzEnabled (Rules (Spec ingress))
            (res', trace)
      | (trace, Failed err) \<Rightarrow> (trace, Failed err)
      | (trace, Panic) \<Rightarrow> (trace, Panic))"

section \<open>Notions the properties are stated in\<close>

text \<open>
  The definitions of this section are not part of the program.  They name what the loops
  compute, so that the theorems below can say it: each one is tied to the loops by a
  lemma (\<open>splitsLoop_eq\<close>, \<open>pathsLoop_step\<close>, \<open>pathsLoop_completed\<close>,
  \<open>rulesLoop_step\<close>, \<open>rulesLoop_Returned\<close>, \<open>rulesLoop_stops\<close>, \<open>tlsLoop_ok\<close>,
  \<open>tlsLoop_fail\<close>).
\<close>

subsection \<open>Splits\<close>

text \<open>The path string of a Path: its \<open>Path\<close>, or \<open>/\<close> when that is empty.\<close>

definition effectivePath :: "HTTPIngressPath \<Rightarrow> string" where
  "effectivePath httpPath = (if Path httpPath \<noteq> '''' then Path httpPath else ''/'')"

text \<open>The three calls whose failure takes the loop body into a failure branch.\<close>

definition trackFails :: "IngressTranslator \<Rightarrow> Ingress \<Rightarrow> IngressBackendSplit \<Rightarrow> bool" where
  "trackFails translator ingress split =
     (case tracker translator of
        None \<Rightarrow> False
      | Some Track \<Rightarrow>
          (case Track \<lparr>Ref_Kind = ''Endpoints'', Ref_APIVersion = ''v1'',
                        Ref_Namespace = Namespace ingress, Ref_Name = ServiceName split\<rparr> ingress of
             None \<Rightarrow> False
           | Some err \<Rightarrow> True))"

definition endpointsFail :: "IngressTranslator \<Rightarrow> IngressBackendSplit \<Rightarrow> bool" where
  "endpointsFail translator split =
     (case endpointsLister translator (ServiceNamespace split) (ServiceName split) of
        Inl err \<Rightarrow> True
      | Inr endpoints \<Rightarrow> False)"

definition serviceFails :: "IngressTranslator \<Rightarrow> IngressBackendSplit \<Rightarrow> bool" where
  "serviceFails translator split =
     (case kubeclient translator (ServiceNamespace split) (ServiceName split) of
        Inl err \<Rightarrow> True
      | Inr service \<Rightarrow> False)"

definition splitFails :: "IngressTranslator \<Rightarrow> Ingress \<Rightarrow> IngressBackendSplit \<Rightarrow> bool" where
  "splitFails translator ingress split =
     (trackFails translator ingress split \<or> endpointsFail translator split
      \<or> serviceFails translator split)"

text \<open>The events of the tracking call of a split: none when there is no tracker.\<close>

definition trackEvents :: "IngressTranslator \<Rightarrow> Ingress \<Rightarrow> IngressBackendSplit \<Rightarrow> event list" where
  "trackEvents translator ingress split =
     fst (trackSplit translator ingress
            \<lparr>Ref_Kind = ''Endpoints'', Ref_APIVersion = ''v1'',
             Ref_Namespace = Namespace ingress, Ref_Name = ServiceName split\<rparr>)"

text \<open>A line written to the logger, as opposed to a call on a collaborator.\<close>

definition isLog :: "event \<Rightarrow> bool" where
  "isLog e = (case e of Log_Errorf line \<Rightarrow> True | Log_Infof line \<Rightarrow> True | _ \<Rightarrow> False)"

text \<open>
  Two notions of a service port matching the port of a split.  \<open>portMatches\<close> is the
  condition of the loop over the service's ports: it compares the number and the name,
  whatever was declared.  \<open>declaredPortMatches\<close> compares what the split declares: the
  number of a numeric port, the name of a named one.
\<close>

definition portMatches :: "IntOrString \<Rightarrow> ServicePort \<Rightarrow> bool" where
  "portMatches servicePort port =
     (Port port = IntVal servicePort \<or> Port_Name port = StrVal servicePort)"

definition declaredPortMatches :: "IntOrString \<Rightarrow> ServicePort \<Rightarrow> bool" where
  "declaredPortMatches servicePort port =
     (case Type servicePort of
        Intstr_Int \<Rightarrow> Port port = IntVal servicePort
      | Intstr_String \<Rightarrow> Port_Name port = StrVal servicePort)"

text \<open>
  The other half of the loop's condition: what a service port has in common with a split
  port that it does not match as declared.
\<close>

definition undeclaredPortMatches :: "IntOrString \<Rightarrow> ServicePort \<Rightarrow> bool" where
  "undeclaredPortMatches servicePort port =
     (case Type servicePort of
        Intstr_Int \<Rightarrow> Port_Name port = StrVal servicePort
      | Intstr_String \<Rightarrow> Port port = IntVal servicePort)"

text \<open>
  A split resolves when its pass through the loop body builds a cluster; \<open>clusterOf\<close>
  and \<open>weightedClusterOf\<close> are what it builds then.
\<close>

definition resolves :: "IngressTranslator \<Rightarrow> Ingress \<Rightarrow> string \<Rightarrow> IngressBackendSplit \<Rightarrow> bool" where
  "resolves translator ingress path split =
     (case snd (translateSplit translator ingress path split) of
        Break \<Rightarrow> False
      | Emit cluster weightedCluster \<Rightarrow> True
      | NilLogger \<Rightarrow> False)"

definition clusterOf :: "IngressTranslator \<Rightarrow> Ingress \<Rightarrow> string \<Rightarrow> IngressBackendSplit \<Rightarrow> Cluster" where
  "clusterOf translator ingress path split =
     emitted_cluster (snd (translateSplit translator ingress path split))"

definition weightedClusterOf ::
  "IngressTranslator \<Rightarrow> Ingress \<Rightarrow> string \<Rightarrow> IngressBackendSplit \<Rightarrow> WeightedCluster" where
  "weightedClusterOf translator ingress path split =
     emitted_weightedCluster (snd (translateSplit translator ingress path split))"

text \<open>
  The events of the loop over a list of splits: those of the splits that resolve, up to
  and including the first one that does not.
\<close>

definition splitsTrace ::
  "IngressTranslator \<Rightarrow> Ingress \<Rightarrow> string \<Rightarrow> IngressBackendSplit list \<Rightarrow> event list" where
  "splitsTrace translator ingress path splits =
     concat (map (\<lambda>split. fst (translateSplit translator ingress path split))
       (take (Suc (length (takeWhile (resolves translator ingress path) splits))) splits))"

text \<open>The loop over a list of splits panics: a split fails and there is no logger.\<close>

definition splitsPanic ::
  "IngressTranslator \<Rightarrow> Ingress \<Rightarrow> string \<Rightarrow> IngressBackendSplit list \<Rightarrow> bool" where
  "splitsPanic translator ingress path splits =
     (logger translator = None \<and> \<not> list_all (resolves translator ingress path) splits)"

subsection \<open>Paths and Rules\<close>

text \<open>
  The splits of a Path that the loop gets through: those before the first one that does
  not resolve.
\<close>

definition processed :: "IngressTranslator \<Rightarrow> Ingress \<Rightarrow> HTTPIngressPath \<Rightarrow> IngressBackendSplit list" where
  "processed translator ingress httpPath =
     takeWhile (resolves translator ingress (effectivePath httpPath)) (Splits httpPath)"

definition pathClusters :: "IngressTranslator \<Rightarrow> Ingress \<Rightarrow> HTTPIngressPath \<Rightarrow> Cluster list" where
  "pathClusters translator ingress httpPath =
     map (clusterOf translator ingress (effectivePath httpPath)) (processed translator ingress httpPath)"

definition pathWeightedClusters ::
  "IngressTranslator \<Rightarrow> Ingress \<Rightarrow> HTTPIngressPath \<Rightarrow> WeightedCluster list" where
  "pathWeightedClusters translator ingress httpPath =
     map (weightedClusterOf translator ingress (effectivePath httpPath))
       (processed translator ingress httpPath)"

text \<open>The routes of a list of Paths: one for every Path with a weighted cluster.\<close>

definition pathRoutes ::
  "IngressTranslator \<Rightarrow> Ingress \<Rightarrow> int \<Rightarrow> HTTPIngressPath list \<Rightarrow> Route list" where
  "pathRoutes translator ingress index paths =
     map (\<lambda>httpPath. createRouteForRevision (Name ingress) index httpPath
                        (pathWeightedClusters translator ingress httpPath))
       (filter (\<lambda>httpPath. pathWeightedClusters translator ingress httpPath \<noteq> []) paths)"

text \<open>The loop over a list of Paths panics: the loop over the splits of one of them does.\<close>

definition pathsPanic :: "IngressTranslator \<Rightarrow> Ingress \<Rightarrow> HTTPIngressPath list \<Rightarrow> bool" where
  "pathsPanic translator ingress paths =
     list_ex (\<lambda>httpPath. splitsPanic translator ingress (effectivePath httpPath) (Splits httpPath))
       paths"

text \<open>The trace of a loop, whether it ended or panicked.\<close>

definition traceOf :: "event list + 'a \<times> 'b \<times> event list \<Rightarrow> event list" where
  "traceOf r = (case r of Inl panicked \<Rightarrow> panicked | Inr (res, x, trace) \<Rightarrow> trace)"

text \<open>The variables a loop has assigned when it ends, \<open>None\<close> when it panics.\<close>

definition completed :: "event list + 'a \<times> 'b \<times> event list \<Rightarrow> ('a \<times> 'b) option" where
  "completed r = (case r of Inl panicked \<Rightarrow> None | Inr (res, x, trace) \<Rightarrow> Some (res, x))"

definition rulePaths :: "IngressRule \<Rightarrow> HTTPIngressPath list" where
  "rulePaths rule = (case HTTP rule of None \<Rightarrow> [] | Some http \<Rightarrow> Paths http)"

definition ruleRoutes :: "IngressTranslator \<Rightarrow> Ingress \<Rightarrow> int \<Rightarrow> IngressRule \<Rightarrow> Route list" where
  "ruleRoutes translator ingress index rule = pathRoutes translator ingress index (rulePaths rule)"

definition ruleClusters :: "IngressTranslator \<Rightarrow> Ingress \<Rightarrow> IngressRule \<Rightarrow> Cluster list" where
  "ruleClusters translator ingress rule =
     concat (map (pathClusters translator ingress) (rulePaths rule))"

text \<open>
  A Rule the loop over the Rules gets past: its \<open>HTTP\<close> is there, the loop over its
  Paths does not panic, and it has a route.
\<close>

definition ruleOK :: "IngressTranslator \<Rightarrow> Ingress \<Rightarrow> int \<Rightarrow> IngressRule \<Rightarrow> bool" where
  "ruleOK translator ingress index rule =
     (HTTP rule \<noteq> None \<and> \<not> pathsPanic translator ingress (rulePaths rule)
      \<and> ruleRoutes translator ingress index rule \<noteq> [])"

definition externalVirtualHostOf ::
  "deps \<Rightarrow> IngressTranslator \<Rightarrow> Ingress \<Rightarrow> int \<Rightarrow> bool \<Rightarrow> IngressRule \<Rightarrow> VirtualHost" where
  "externalVirtualHostOf d translator ingress index extAuthzEnabled rule =
     fst (virtualHosts d translator ingress extAuthzEnabled rule
            (ruleRoutes translator ingress index rule))"

definition internalVirtualHostOf ::
  "deps \<Rightarrow> IngressTranslator \<Rightarrow> Ingress \<Rightarrow> int \<Rightarrow> bool \<Rightarrow> IngressRule \<Rightarrow> VirtualHost" where
  "internalVirtualHostOf d translator ingress index extAuthzEnabled rule =
     snd (virtualHosts d translator ingress extAuthzEnabled rule
            (ruleRoutes translator ingress index rule))"

text \<open>What a list of Rules that are all \<open>ruleOK\<close> adds to \<open>res\<close>.\<close>

definition addRules ::
  "deps \<Rightarrow> IngressTranslator \<Rightarrow> Ingress \<Rightarrow> int \<Rightarrow> bool \<Rightarrow> IngressRule list \<Rightarrow>
   translatedIngress \<Rightarrow> translatedIngress" where
  "addRules d translator ingress index extAuthzEnabled rules res =
     res\<lparr>routes := routes res @ concat (map (ruleRoutes translator ingress index) rules),
         clusters := clusters res @ concat (map (ruleClusters translator ingress) rules),
         externalVirtualHosts := externalVirtualHosts res @
           map (externalVirtualHostOf d translator ingress index extAuthzEnabled)
             (filter (\<lambda>rule. RuleIsExternal d rule (Visibility (Spec ingress))) rules),
         internalVirtualHosts := internalVirtualHosts res @
           map (internalVirtualHostOf d translator ingress index extAuthzEnabled) rules\<rparr>"

subsection \<open>TLS entries and the whole plan\<close>

definition secretFails :: "deps \<Rightarrow> IngressTLS \<Rightarrow> bool" where
  "secretFails d ingressTLS =
     (case sslCreds d (SecretNamespace ingressTLS) (SecretName ingressTLS) of
        Inl err \<Rightarrow> True
      | Inr creds \<Rightarrow> False)"

definition secretCall :: "IngressTLS \<Rightarrow> event" where
  "secretCall ingressTLS = Call_sslCreds (SecretNamespace ingressTLS) (SecretName ingressTLS)"

definition sniMatchOf :: "deps \<Rightarrow> IngressTLS \<Rightarrow> SNIMatch" where
  "sniMatchOf d ingressTLS =
     (case sslCreds d (SecretNamespace ingressTLS) (SecretName ingressTLS) of
        Inl err \<Rightarrow> NewSNIMatch (TLS_Hosts ingressTLS) [] []
      | Inr (certChain, privateKey) \<Rightarrow> NewSNIMatch (TLS_Hosts ingressTLS) certChain privateKey)"

definition planOf :: "deps \<Rightarrow> IngressTranslator \<Rightarrow> Ingress \<Rightarrow> int \<Rightarrow> bool \<Rightarrow> translatedIngress" where
  "planOf d translator ingress index extAuthzEnabled =
     addRules d translator ingress index extAuthzEnabled (Rules (Spec ingress))
       ((newTranslatedIngress (Name ingress) (Namespace ingress))
          \<lparr>sniMatches := map (sniMatchOf d) (TLS (Spec ingress))\<rparr>)"


section \<open>Example inputs\<close>

text \<open>
  A small cluster: every service but \<open>gone\<close> has endpoints and a service object; the
  service \<open>dual\<close> declares port 80 twice (once per transport protocol), the service
  \<open>plain\<close> declares one port without a name, every other service declares the one port
  \<open>http\<close>; the tracker refuses the name \<open>untracked\<close>; the secret \<open>missing\<close> does not
  exist.  \<open>exampleTranslator\<close> is built by the constructor, so it has no logger;
  \<open>loggingTranslator\<close> is the same translator with a logger.
\<close>

definition exampleService :: Service where
  "exampleService =
     \<lparr>Ports = [\<lparr>Port_Name = ''http'', Port = 80,
                 TargetPort = \<lparr>Type = Intstr_Int, IntVal = 8080, StrVal = ''''\<rparr>\<rparr>]\<rparr>"

definition dualService :: Service where
  "dualService =
     \<lparr>Ports = [\<lparr>Port_Name = ''h2c'', Port = 80,
                 TargetPort = \<lparr>Type = Intstr_Int, IntVal = 8080, StrVal = ''''\<rparr>\<rparr>,
               \<lparr>Port_Name = ''dns'', Port = 80,
                 TargetPort = \<lparr>Type = Intstr_Int, IntVal = 5353, StrVal = ''''\<rparr>\<rparr>]\<rparr>"

definition plainService :: Service where
  "plainService =
     \<lparr>Ports = [\<lparr>Port_Name = '''', Port = 80,
                 TargetPort = \<lparr>Type = Intstr_Int, IntVal = 8080, StrVal = ''''\<rparr>\<rparr>]\<rparr>"

definition exampleEndpoints :: Endpoints where
  "exampleEndpoints = \<lparr>Subsets = [\<lparr>Addresses = [''10.0.0.7'']\<rparr>]\<rparr>"

definition exampleTranslator :: IngressTranslator where
  "exampleTranslator =
     NewIngressTranslator
       (\<lambda>namespace name.
          if name = ''gone'' then Inl (ErrNotFound ''services gone not found'')
          else if name = ''dual'' then Inr dualService
          else if name = ''plain'' then Inr plainService
          else Inr exampleService)
       (\<lambda>namespace name.
          if name = ''gone'' then Inl (ErrNotFound ''endpoints gone not found'')
          else Inr exampleEndpoints)
       ''cluster.local''
       (Some (\<lambda>ref ingress.
          if Ref_Name ref = ''untracked'' then Some (ErrOther ''invalid reference'') else None))"

definition loggingTranslator :: IngressTranslator where
  "loggingTranslator = exampleTranslator\<lparr>logger := Some SugaredLogger\<rparr>"

definition exampleDeps :: deps where
  "exampleDeps =
     \<lparr>sslCreds = (\<lambda>namespace name.
         if name = ''missing'' then Inl (ErrNotFound ''secrets missing not found'')
         else Inr (''chain'', ''key'')),
      ExternalDomains = (\<lambda>rule localDomainName. Rule_Hosts rule),
      InternalDomains = (\<lambda>rule localDomainName. []),
      RuleIsExternal = (\<lambda>rule visibility. Rule_Visibility rule = ''ExternalIP'')\<rparr>"

definition exampleSplit :: "string \<Rightarrow> 32 word \<Rightarrow> IngressBackendSplit" where
  "exampleSplit name port =
     \<lparr>ServiceNamespace = ''default'', ServiceName = name,
      ServicePort = \<lparr>Type = Intstr_Int, IntVal = port, StrVal = ''''\<rparr>, Percent = 50,
      Split_AppendHeaders = Map.empty\<rparr>"

definition examplePath :: "string \<Rightarrow> IngressBackendSplit list \<Rightarrow> HTTPIngressPath" where
  "examplePath path splits =
     \<lparr>Path = path, Splits = splits, Path_AppendHeaders = Map.empty, Timeout = None,
      Retries = None\<rparr>"

definition exampleRule :: "string \<Rightarrow> HTTPIngressPath list \<Rightarrow> IngressRule" where
  "exampleRule visibility paths =
     \<lparr>Rule_Hosts = [''hello.example.com''], Rule_Visibility = visibility,
      HTTP = Some \<lparr>Paths = paths\<rparr>\<rparr>"

definition exampleTLS :: "string \<Rightarrow> IngressTLS" where
  "exampleTLS secret =
     \<lparr>TLS_Hosts = [''hello.example.com''], SecretName = secret, SecretNamespace = ''default''\<rparr>"

definition exampleIngress :: "IngressTLS list \<Rightarrow> IngressRule list \<Rightarrow> Ingress" where
  "exampleIngress tlss rules =
     \<lparr>Name = ''hello'', Namespace = ''default'', Labels = Map.empty,
      Spec = \<lparr>TLS = tlss, Rules = rules, Visibility = ''''\<rparr>\<rparr>"

text \<open>
  Ingresses over that cluster, one for each situation the properties below are about.
\<close>

definition threeSplits :: Ingress where
  "threeSplits =
     exampleIngress []
       [exampleRule ''ExternalIP''
          [examplePath '''' [exampleSplit ''a'' 80, exampleSplit ''gone'' 80, exampleSplit ''c'' 80]]]"

definition dualPort :: Ingress where
  "dualPort =
     exampleIngress [] [exampleRule ''ExternalIP'' [examplePath '''' [exampleSplit ''dual'' 80]]]"

definition unmatchedPort :: Ingress where
  "unmatchedPort =
     exampleIngress []
       [exampleRule ''ClusterLocal''
          [examplePath '''' [exampleSplit ''a'' 80], examplePath ''/api'' [exampleSplit ''c'' 9999]]]"

definition unnamedPort :: Ingress where
  "unnamedPort =
     exampleIngress []
       [exampleRule ''ClusterLocal'' [examplePath ''/api'' [exampleSplit ''plain'' 9999]]]"

definition missingSecret :: Ingress where
  "missingSecret =
     exampleIngress [exampleTLS ''present'', exampleTLS ''missing'', exampleTLS ''later'']
       [exampleRule ''ClusterLocal'' [examplePath '''' [exampleSplit ''a'' 80]]]"

definition noRoutes :: Ingress where
  "noRoutes =
     exampleIngress []
       [exampleRule ''ClusterLocal'' [examplePath '''' [exampleSplit ''a'' 80]],
        exampleRule ''ClusterLocal''
          [examplePath '''' [exampleSplit ''untracked'' 80],
           examplePath ''/x'' [exampleSplit ''gone'' 80]]]"



text \<open>
  A gateway that answers every probe with the given status and headers, and a fleet of
  two replicas of which the first still serves the snapshot \<open>v41\<close>.
\<close>

definition exampleGateway :: "int \<Rightarrow> (string \<rightharpoonup> string list) \<Rightarrow> httpEnv" where
  "exampleGateway status header =
     \<lparr>url_Parse = (\<lambda>url. Inr (takeWhile (\<lambda>c. c \<noteq> CHR ''/'') (drop 7 url))),
      client_Do = (\<lambda>req. Inr \<lparr>StatusCode = status, Header = header\<rparr>)\<rparr>"

definition staleFleet :: httpEnv where
  "staleFleet =
     \<lparr>url_Parse = (\<lambda>url. Inr (takeWhile (\<lambda>c. c \<noteq> CHR ''/'') (drop 7 url))),
      client_Do = (\<lambda>req.
        if URL req = ''http://10.0.0.1:8081/__internalkouriersnapshot''
        then Inr \<lparr>StatusCode = 200, Header = [''Kourier-Snapshot-Id'' \<mapsto> [''v41'']]\<rparr>
        else Inr \<lparr>StatusCode = 200, Header = [''Kourier-Snapshot-Id'' \<mapsto> [''v42'']]\<rparr>)\<rparr>"

definition twoPods :: "Pod list" where
  "twoPods = [\<lparr>PodIP = ''10.0.0.1''\<rparr>, \<lparr>PodIP = ''10.0.0.2''\<rparr>]"

text \<open>
  Two executions of a call on \<open>twoPods\<close>.  In \<open>afterTheLoop\<close> both goroutines get to run
  once the launching loop is over, on a package that no other call touches.  In
  \<open>withStraggler\<close> each goroutine reads its own address, and a goroutine that an earlier
  call left behind (the wait group still counts it, \<open>onePending\<close>) finishes in between.
\<close>

definition afterTheLoop :: schedule where
  "afterTheLoop =
     \<lparr>delay = (\<lambda>k. 1), actions = [Probe 0, Done 0, Probe 1, Done 1], late = []\<rparr>"

definition withStraggler :: schedule where
  "withStraggler =
     \<lparr>delay = (\<lambda>k. 0),
      actions = [Probe 0, Done 0, ForeignCount, ForeignDone, Probe 1, Done 1], late = []\<rparr>"

definition quiet :: package where
  "quiet = \<lparr>pkg_inSync = 0, pkg_wg = 0\<rparr>"

definition onePending :: package where
  "onePending = \<lparr>pkg_inSync = 0, pkg_wg = 1\<rparr>"

text \<open>The equations that evaluate the model and the examples on concrete inputs.\<close>

lemmas example_defs =
  exampleService_def dualService_def plainService_def exampleEndpoints_def
  exampleTranslator_def NewIngressTranslator_def exampleDeps_def exampleSplit_def
  examplePath_def exampleRule_def exampleIngress_def

lemmas model_defs =
  translateIngress_def newTranslatedIngress_def translateSplit_def trackSplit_def
  logAndBreak_def sniMatchFromIngressTLS_def virtualHosts_def createRouteForRevision_def
  lbEndpointsForKubeEndpoints_def quoted_def Itoa_def FormatUint.simps Errorf_def Second_def
  mergeMapString_def IngressVisibilityClusterLocal_def Let_def

lemmas probe_defs =
  getCurrentGWSnapshot_def buildInternalKourierRequest_def NewRequest_def Header_Get_def
  CanonicalMIMEHeaderKey_def validHeaderFieldByte_def tokenBytes_def toUpperASCII_def
  toLowerASCII_def httpPortInternal_def internalKourierPath_def internalKourierDomain_def
  internalKourierHeader_def StatusOK_def Itoa_def FormatUint.simps Errorf_def Let_def

lemmas derived_defs =
  effectivePath_def trackFails_def endpointsFail_def serviceFails_def splitFails_def
  trackEvents_def portMatches_def resolves_def clusterOf_def weightedClusterOf_def
  splitsPanic_def pathsPanic_def processed_def pathClusters_def pathWeightedClusters_def
  pathRoutes_def rulePaths_def ruleRoutes_def ruleClusters_def ruleOK_def
  externalVirtualHostOf_def internalVirtualHostOf_def addRules_def secretFails_def
  secretCall_def sniMatchOf_def planOf_def


section \<open>The loops, in closed form\<close>

lemma clusters_routes_update:
  "(res\<lparr>clusters := a\<rparr>)\<lparr>routes := b\<rparr> = (res\<lparr>routes := b\<rparr>)\<lparr>clusters := a\<rparr>"
  by (cases res) simp

lemma splitsLoop_eq:
  "splitsLoop tr ing path ss (res, wrs, t) =
     (if splitsPanic tr ing path ss then Inl (t @ splitsTrace tr ing path ss)
      else Inr (res\<lparr>clusters := clusters res
                   @ map (clusterOf tr ing path) (takeWhile (resolves tr ing path) ss)\<rparr>,
                wrs @ map (weightedClusterOf tr ing path) (takeWhile (resolves tr ing path) ss),
                t @ splitsTrace tr ing path ss))"
proof (induction ss arbitrary: res wrs t)
  case Nil
  show ?case by (simp add: splitsPanic_def splitsTrace_def)
next
  case (Cons s ss)
  obtain ev st where ts: "translateSplit tr ing path s = (ev, st)"
    by (cases "translateSplit tr ing path s")
  have logged: "st \<noteq> Break" if "logger tr = None"
    using that ts
    by (auto simp: translateSplit_def logAndBreak_def Let_def
          split: prod.splits option.splits sum.splits if_splits)
  have nil: "logger tr = None" if "st = NilLogger"
    using that ts
    by (auto simp: translateSplit_def logAndBreak_def Let_def
          split: prod.splits option.splits sum.splits if_splits)
  show ?case
  proof (cases st)
    case Break
    with logged have "logger tr \<noteq> None" by auto
    moreover from ts Break have "\<not> resolves tr ing path s" by (simp add: resolves_def)
    ultimately show ?thesis
      using ts Break by (simp add: splitsPanic_def splitsTrace_def)
  next
    case (Emit c w)
    with ts have r: "resolves tr ing path s" and c: "clusterOf tr ing path s = c"
      and w: "weightedClusterOf tr ing path s = w"
      by (simp_all add: resolves_def clusterOf_def weightedClusterOf_def)
    from ts Emit show ?thesis
      by (simp add: Cons.IH r c w splitsPanic_def splitsTrace_def)
  next
    case NilLogger
    with nil have "logger tr = None" by simp
    moreover from ts NilLogger have "\<not> resolves tr ing path s" by (simp add: resolves_def)
    ultimately show ?thesis
      using ts NilLogger by (simp add: splitsPanic_def splitsTrace_def)
  qed
qed

lemma pathRoutes_Cons:
  "pathRoutes tr ing index (p # ps) = pathRoutes tr ing index [p] @ pathRoutes tr ing index ps"
  by (simp add: pathRoutes_def)

lemma pathsLoop_step:
  "pathsLoop tr ing index (p # ps) (res, rr, t) =
     (if splitsPanic tr ing (effectivePath p) (Splits p)
      then Inl (t @ splitsTrace tr ing (effectivePath p) (Splits p))
      else pathsLoop tr ing index ps
             (res\<lparr>routes := routes res @ pathRoutes tr ing index [p],
                  clusters := clusters res @ pathClusters tr ing p\<rparr>,
              rr @ pathRoutes tr ing index [p],
              t @ splitsTrace tr ing (effectivePath p) (Splits p)))"
proof -
  have path: "(if Path p \<noteq> [] then Path p else ''/'') = effectivePath p"
    by (simp add: effectivePath_def)
  show ?thesis
    unfolding pathsLoop.simps Let_def path splitsLoop_eq
    by (simp add: pathRoutes_def pathClusters_def pathWeightedClusters_def processed_def
          clusters_routes_update)
qed

lemma pathsLoop_completed:
  "completed (pathsLoop tr ing index ps (res, rr, t)) =
     (if pathsPanic tr ing ps then None
      else Some (res\<lparr>routes := routes res @ pathRoutes tr ing index ps,
                     clusters := clusters res @ concat (map (pathClusters tr ing) ps)\<rparr>,
                 rr @ pathRoutes tr ing index ps))"
proof (induction ps arbitrary: res rr t)
  case Nil
  show ?case by (simp add: pathRoutes_def pathsPanic_def completed_def)
next
  case (Cons p ps)
  show ?case
  proof (cases "splitsPanic tr ing (effectivePath p) (Splits p)")
    case True
    then show ?thesis
      unfolding pathsLoop_step by (simp add: pathsPanic_def completed_def)
  next
    case False
    then show ?thesis
      unfolding pathsLoop_step
      by (simp add: Cons.IH pathsPanic_def pathRoutes_Cons [of tr ing index p ps])
  qed
qed

lemma pathsLoop_cases:
  "pathsLoop tr ing index ps (res, rr, t) =
     (if pathsPanic tr ing ps then Inl (traceOf (pathsLoop tr ing index ps (res, rr, t)))
      else Inr (res\<lparr>routes := routes res @ pathRoutes tr ing index ps,
                     clusters := clusters res @ concat (map (pathClusters tr ing) ps)\<rparr>,
                rr @ pathRoutes tr ing index ps,
                traceOf (pathsLoop tr ing index ps (res, rr, t))))"
  using pathsLoop_completed [of tr ing index ps res rr t]
  by (cases "pathsLoop tr ing index ps (res, rr, t)")
     (auto simp: completed_def traceOf_def split: if_splits)

lemma rulesLoop_step:
  assumes "ruleOK tr ing index rule"
  shows "snd (rulesLoop d tr ing index ext (rule # rest) (res, t)) =
     snd (rulesLoop d tr ing index ext rest
       (addRules d tr ing index ext [rule] res,
        traceOf (pathsLoop tr ing index (rulePaths rule) (res, [], t))))"
proof -
  from assms obtain http where http: "HTTP rule = Some http"
    by (auto simp: ruleOK_def)
  then have paths: "rulePaths rule = Paths http" by (simp add: rulePaths_def)
  from assms paths have np: "\<not> pathsPanic tr ing (Paths http)"
    and nz: "ruleRoutes tr ing index rule \<noteq> []" by (simp_all add: ruleOK_def)
  let ?t' = "traceOf (pathsLoop tr ing index (Paths http) (res, [], t))"
  have pl: "pathsLoop tr ing index (Paths http) (res, [], t) =
      Inr (res\<lparr>routes := routes res @ ruleRoutes tr ing index rule,
               clusters := clusters res @ ruleClusters tr ing rule\<rparr>,
           ruleRoutes tr ing index rule, ?t')"
    using pathsLoop_cases [of tr ing index "Paths http" res "[]" t] np
    by (simp add: ruleRoutes_def ruleClusters_def paths)
  obtain vh ivh where vhs: "virtualHosts d tr ing ext rule (ruleRoutes tr ing index rule) = (vh, ivh)"
    by (cases "virtualHosts d tr ing ext rule (ruleRoutes tr ing index rule)")
  show ?thesis
    unfolding rulesLoop.simps http option.case paths
    by (subst pl)
       (simp add: nz vhs addRules_def externalVirtualHostOf_def internalVirtualHostOf_def Let_def)
qed

lemma rulesLoop_stop:
  assumes "\<not> ruleOK tr ing index rule"
  shows "snd (rulesLoop d tr ing index ext (rule # rest) (res, t)) =
     (if HTTP rule = None \<or> pathsPanic tr ing (rulePaths rule) then Panic
      else Failed (Errorf ''ingress without routes''))"
proof (cases "HTTP rule")
  case None
  then show ?thesis by simp
next
  case (Some http)
  then have paths: "rulePaths rule = Paths http" by (simp add: rulePaths_def)
  show ?thesis
  proof (cases "pathsPanic tr ing (Paths http)")
    case True
    with pathsLoop_cases [of tr ing index "Paths http" res "[]" t]
    obtain tp where "pathsLoop tr ing index (Paths http) (res, [], t) = Inl tp" by auto
    with Some True paths show ?thesis by simp
  next
    case False
    with assms Some paths have z: "ruleRoutes tr ing index rule = []"
      by (simp add: ruleOK_def)
    let ?t' = "traceOf (pathsLoop tr ing index (Paths http) (res, [], t))"
    have pl: "pathsLoop tr ing index (Paths http) (res, [], t) =
        Inr (res\<lparr>routes := routes res @ ruleRoutes tr ing index rule,
                 clusters := clusters res @ ruleClusters tr ing rule\<rparr>,
             ruleRoutes tr ing index rule, ?t')"
      using pathsLoop_cases [of tr ing index "Paths http" res "[]" t] False
      by (simp add: ruleRoutes_def ruleClusters_def paths)
    show ?thesis
      unfolding rulesLoop.simps Some option.case paths
      by (subst pl) (simp add: z False)
  qed
qed

lemma addRules_Nil: "addRules d tr ing index ext [] res = res"
  by (simp add: addRules_def)

lemma addRules_Cons:
  "addRules d tr ing index ext rules (addRules d tr ing index ext [rule] res) =
     addRules d tr ing index ext (rule # rules) res"
  by (simp add: addRules_def)

lemma rulesLoop_Returned:
  "list_all (ruleOK tr ing index) rules \<Longrightarrow>
     snd (rulesLoop d tr ing index ext rules (res, t)) =
       Returned (addRules d tr ing index ext rules res)"
proof (induction rules arbitrary: res t)
  case Nil
  show ?case by (simp add: addRules_Nil)
next
  case (Cons rule rules)
  then have ok: "ruleOK tr ing index rule" and rest: "list_all (ruleOK tr ing index) rules"
    by simp_all
  show ?case
    unfolding rulesLoop_step [OF ok] Cons.IH [OF rest] addRules_Cons ..
qed

lemma rulesLoop_stops:
  "\<not> list_all (ruleOK tr ing index) rules \<Longrightarrow>
     snd (rulesLoop d tr ing index ext rules (res, t)) =
       (if HTTP (hd (dropWhile (ruleOK tr ing index) rules)) = None
           \<or> pathsPanic tr ing (rulePaths (hd (dropWhile (ruleOK tr ing index) rules)))
        then Panic
        else Failed (Errorf ''ingress without routes''))"
proof (induction rules arbitrary: res t)
  case Nil
  then show ?case by simp
next
  case (Cons rule rules)
  show ?case
  proof (cases "ruleOK tr ing index rule")
    case True
    with Cons.prems have "\<not> list_all (ruleOK tr ing index) rules" by simp
    from Cons.IH [OF this] True show ?thesis
      unfolding rulesLoop_step [OF True] by simp
  next
    case False
    then show ?thesis
      unfolding rulesLoop_stop [OF False] by simp
  qed
qed

lemma tlsLoop_ok:
  "list_all (\<lambda>x. \<not> secretFails d x) tlss \<Longrightarrow>
     tlsLoop d tr tlss (res, t) =
       (t @ map secretCall tlss,
        Returned (res\<lparr>sniMatches := sniMatches res @ map (sniMatchOf d) tlss\<rparr>))"
proof (induction tlss arbitrary: res t)
  case Nil
  show ?case by simp
next
  case (Cons x xs)
  from Cons.prems obtain c k where
    "sslCreds d (SecretNamespace x) (SecretName x) = Inr (c, k)"
    by (cases "sslCreds d (SecretNamespace x) (SecretName x)") (auto simp: secretFails_def)
  moreover from Cons.prems have "list_all (\<lambda>x. \<not> secretFails d x) xs" by simp
  ultimately show ?case
    by (simp add: Cons.IH sniMatchFromIngressTLS_def secretCall_def sniMatchOf_def)
qed

lemma tlsLoop_fail:
  assumes "list_all (\<lambda>x. \<not> secretFails d x) pre"
    and "sslCreds d (SecretNamespace bad) (SecretName bad) = Inl err"
  shows "tlsLoop d tr (pre @ bad # post) (res, t) =
       (case logger tr of
          None \<Rightarrow> (t @ map secretCall pre @ [secretCall bad], Panic)
        | Some sink \<Rightarrow>
            (t @ map secretCall pre @ [secretCall bad, Log_Errorf (Error err)], Failed err))"
  using assms
proof (induction pre arbitrary: res t)
  case Nil
  then show ?case
    by (simp add: sniMatchFromIngressTLS_def secretCall_def split: option.splits)
next
  case (Cons x xs)
  from Cons.prems obtain c k where
    "sslCreds d (SecretNamespace x) (SecretName x) = Inr (c, k)"
    by (cases "sslCreds d (SecretNamespace x) (SecretName x)") (auto simp: secretFails_def)
  moreover from Cons.prems have "list_all (\<lambda>x. \<not> secretFails d x) xs" by simp
  ultimately show ?case
    using Cons.prems(2)
    by (simp add: Cons.IH sniMatchFromIngressTLS_def secretCall_def split: option.splits)
qed

lemma first_failure:
  "\<not> list_all (\<lambda>x. \<not> P x) xs \<Longrightarrow>
     \<exists>pre bad post. xs = pre @ bad # post \<and> list_all (\<lambda>x. \<not> P x) pre \<and> P bad"
proof (induction xs)
  case Nil
  then show ?case by simp
next
  case (Cons x xs)
  show ?case
  proof (cases "P x")
    case True
    then have "x # xs = [] @ x # xs \<and> list_all (\<lambda>x. \<not> P x) [] \<and> P x" by simp
    then show ?thesis by blast
  next
    case False
    with Cons.prems have "\<not> list_all (\<lambda>x. \<not> P x) xs" by simp
    from Cons.IH [OF this] obtain pre bad post where
      "xs = pre @ bad # post" "list_all (\<lambda>x. \<not> P x) pre" "P bad" by blast
    with False have "x # xs = (x # pre) @ bad # post \<and> list_all (\<lambda>x. \<not> P x) (x # pre) \<and> P bad"
      by simp
    then show ?thesis by blast
  qed
qed

lemma translateIngress_tls_ok:
  assumes "list_all (\<lambda>x. \<not> secretFails d x) (TLS (Spec ing))"
  shows "translateIngress d tr ing index ext =
     rulesLoop d tr ing index ext (Rules (Spec ing))
       ((newTranslatedIngress (Name ing) (Namespace ing))
          \<lparr>sniMatches := map (sniMatchOf d) (TLS (Spec ing))\<rparr>,
        map secretCall (TLS (Spec ing)))"
  unfolding translateIngress_def Let_def tlsLoop_ok [OF assms]
  by (simp add: newTranslatedIngress_def)

lemma translateIngress_tls_fail:
  assumes "\<not> list_all (\<lambda>x. \<not> secretFails d x) (TLS (Spec ing))"
  shows "\<forall>res. snd (translateIngress d tr ing index ext) \<noteq> Returned res"
proof -
  from first_failure [OF assms] obtain pre bad post where
    split: "TLS (Spec ing) = pre @ bad # post" and pre: "list_all (\<lambda>x. \<not> secretFails d x) pre"
    and bad: "secretFails d bad" by blast
  from bad obtain err where "sslCreds d (SecretNamespace bad) (SecretName bad) = Inl err"
    by (cases "sslCreds d (SecretNamespace bad) (SecretName bad)") (auto simp: secretFails_def)
  from tlsLoop_fail [OF pre this] show ?thesis
    unfolding translateIngress_def Let_def split by (simp split: option.splits)
qed

lemma translateIngress_Returned:
  assumes "snd (translateIngress d tr ing index ext) = Returned res"
  shows "list_all (\<lambda>x. \<not> secretFails d x) (TLS (Spec ing))
       \<and> list_all (ruleOK tr ing index) (Rules (Spec ing))
       \<and> res = planOf d tr ing index ext"
proof -
  have tls: "list_all (\<lambda>x. \<not> secretFails d x) (TLS (Spec ing))"
  proof (rule ccontr)
    assume "\<not> ?thesis"
    from translateIngress_tls_fail [OF this, of tr index ext] assms show False by auto
  qed
  have rules: "list_all (ruleOK tr ing index) (Rules (Spec ing))"
  proof (rule ccontr)
    assume "\<not> ?thesis"
    from rulesLoop_stops [OF this] assms show False
      unfolding translateIngress_tls_ok [OF tls]
      by (simp split: if_splits)
  qed
  from assms have "res = planOf d tr ing index ext"
    unfolding translateIngress_tls_ok [OF tls] rulesLoop_Returned [OF rules] planOf_def
    by simp
  with tls rules show ?thesis by simp
qed

lemma translateIngress_plan:
  assumes "list_all (\<lambda>x. \<not> secretFails d x) (TLS (Spec ing))"
    and "list_all (ruleOK tr ing index) (Rules (Spec ing))"
  shows "snd (translateIngress d tr ing index ext) = Returned (planOf d tr ing index ext)"
  unfolding translateIngress_tls_ok [OF assms(1)] rulesLoop_Returned [OF assms(2)] planOf_def ..


subsection \<open>The loop body and the port loop\<close>

lemma portsLoop_none:
  "filter (portMatches sp) ports = [] \<Longrightarrow> portsLoop sp ports (targetPort, http2) = (targetPort, http2)"
  by (induction ports) (auto simp: portMatches_def split: if_splits)

lemma portsLoop_last:
  "filter (portMatches sp) ports \<noteq> [] \<Longrightarrow>
     portsLoop sp ports (targetPort, http2) =
       (IntVal (TargetPort (last (filter (portMatches sp) ports))),
        Port_Name (last (filter (portMatches sp) ports)) = ''http2''
        \<or> Port_Name (last (filter (portMatches sp) ports)) = ''h2c'')"
proof (induction ports arbitrary: targetPort http2)
  case Nil
  then show ?case by simp
next
  case (Cons p ps)
  show ?case
  proof (cases "filter (portMatches sp) ps = []")
    case True
    with Cons.prems have "portMatches sp p" by (auto split: if_splits)
    with True have only: "filter (portMatches sp) (p # ps) = [p]" by simp
    from \<open>portMatches sp p\<close>
    have "portsLoop sp (p # ps) (targetPort, http2) =
            portsLoop sp ps (IntVal (TargetPort p), Port_Name p = ''http2'' \<or> Port_Name p = ''h2c'')"
      unfolding portMatches_def by simp
    then show ?thesis
      unfolding only portsLoop_none [OF True] by simp
  next
    case False
    have last: "last (filter (portMatches sp) (p # ps)) = last (filter (portMatches sp) ps)"
      using False by simp
    obtain a b where step: "portsLoop sp (p # ps) (targetPort, http2) = portsLoop sp ps (a, b)"
      by (cases "portMatches sp p") (simp_all add: portMatches_def)
    show ?thesis
      unfolding last step by (rule Cons.IH [OF False])
  qed
qed

lemma translateSplit_resolved:
  assumes "\<not> trackFails tr ing split"
    and "endpointsLister tr (ServiceNamespace split) (ServiceName split) = Inr endpoints"
    and "kubeclient tr (ServiceNamespace split) (ServiceName split) = Inr service"
  shows "translateSplit tr ing path split =
     (trackEvents tr ing split
        @ [Call_EndpointsGet (ServiceNamespace split) (ServiceName split),
           Call_ServicesGet (ServiceNamespace split) (ServiceName split)],
      Emit (NewCluster (ServiceName split @ path) (5 * Second)
              (lbEndpointsForKubeEndpoints endpoints
                 (fst (portsLoop (ServicePort split) (Ports service) (0, False))))
              (snd (portsLoop (ServicePort split) (Ports service) (0, False))) Cluster_STATIC)
           (NewWeightedCluster (ServiceName split @ path) (ucast (Percent split))
              (Split_AppendHeaders split)))"
proof (cases "tracker tr")
  case None
  with assms show ?thesis
    by (simp add: translateSplit_def trackSplit_def trackEvents_def Let_def case_prod_beta)
next
  case (Some Track)
  with assms(1) have "Track \<lparr>Ref_Kind = ''Endpoints'', Ref_APIVersion = ''v1'',
      Ref_Namespace = Namespace ing, Ref_Name = ServiceName split\<rparr> ing = None"
    by (simp add: trackFails_def split: option.splits)
  with Some assms(2,3) show ?thesis
    by (simp add: translateSplit_def trackSplit_def trackEvents_def Let_def case_prod_beta)
qed

lemma resolves_iff: "resolves tr ing path split = (\<not> splitFails tr ing split)"
  by (simp add: resolves_def splitFails_def trackFails_def endpointsFail_def serviceFails_def
        translateSplit_def trackSplit_def logAndBreak_def Let_def
        split: option.splits prod.splits sum.splits)



lemma ruleRoutes_empty:
  "(ruleRoutes tr ing index rule = []) =
     (\<forall>httpPath \<in> set (rulePaths rule). pathWeightedClusters tr ing httpPath = [])"
  by (simp add: ruleRoutes_def pathRoutes_def filter_empty_conv)


lemma portMatches_split:
  "portMatches sp port = (declaredPortMatches sp port \<or> undeclaredPortMatches sp port)"
  by (cases "Type sp")
     (auto simp: portMatches_def declaredPortMatches_def undeclaredPortMatches_def)

lemma filter_undeclared:
  "list_all (\<lambda>port. \<not> declaredPortMatches sp port) ports \<Longrightarrow>
     filter (portMatches sp) ports = filter (undeclaredPortMatches sp) ports"
  by (induction ports) (auto simp: portMatches_split)

lemma portsLoop_eq:
  "portsLoop sp ports (0, False) =
     (if filter (portMatches sp) ports = [] then (0, False)
      else (IntVal (TargetPort (last (filter (portMatches sp) ports))),
            Port_Name (last (filter (portMatches sp) ports)) = ''http2''
            \<or> Port_Name (last (filter (portMatches sp) ports)) = ''h2c''))"
  using portsLoop_none [of sp ports 0 False] portsLoop_last [of sp ports 0 False]
  by (cases "filter (portMatches sp) ports = []") simp_all

lemma takeWhile_prefix:
  "list_all P pre \<Longrightarrow>
     takeWhile P (pre @ s # post) = (if P s then pre @ s # takeWhile P post else pre)"
  by (induction pre) auto

lemma translateSplit_failed:
  assumes "splitFails tr ing bad" and "logger tr = Some sink"
  shows "snd (translateSplit tr ing path bad) = Break"
    and "isLog (last (fst (translateSplit tr ing path bad)))"
  using assms
  by (auto simp: splitFails_def trackFails_def endpointsFail_def serviceFails_def
        translateSplit_def trackSplit_def logAndBreak_def isLog_def Let_def
        split: option.splits prod.splits sum.splits)

lemma processed_failing:
  assumes "splitFails tr ing bad"
    and "Splits httpPath = pre @ bad # post"
    and "list_all (\<lambda>split. \<not> splitFails tr ing split) pre"
  shows "processed tr ing httpPath = pre"
proof -
  from assms(3) have "list_all (resolves tr ing (effectivePath httpPath)) pre"
    by (simp add: list_all_iff resolves_iff)
  from takeWhile_prefix [OF this] assms(1) show ?thesis
    by (simp add: processed_def assms(2) resolves_iff)
qed

lemma no_logger_no_panic: "logger tr = Some sink \<Longrightarrow> \<not> pathsPanic tr ing paths"
  by (simp add: pathsPanic_def splitsPanic_def list_ex_iff)

lemma pathRoutes_append:
  "pathRoutes tr ing index (xs @ ys) = pathRoutes tr ing index xs @ pathRoutes tr ing index ys"
  by (simp add: pathRoutes_def)



subsection \<open>The plans of the examples\<close>


lemma threeSplits_plan:
  "snd (translateIngress exampleDeps loggingTranslator threeSplits 0 False) =
     Returned (planOf exampleDeps loggingTranslator threeSplits 0 False)"
  by (rule translateIngress_plan)
     (simp_all add: threeSplits_def loggingTranslator_def example_defs derived_defs model_defs)

lemma unmatchedPort_plan:
  "snd (translateIngress exampleDeps exampleTranslator unmatchedPort 0 False) =
     Returned (planOf exampleDeps exampleTranslator unmatchedPort 0 False)"
  by (rule translateIngress_plan)
     (simp_all add: unmatchedPort_def example_defs derived_defs model_defs)


section \<open>Properties of the gateway snapshot check\<close>

text \<open>
  Claim C1 says that the check returns true only when every replica has reported the
  expected snapshot.  The code does not ensure that.  The fleet \<open>staleFleet\<close> has two
  replicas, and the one at \<open>10.0.0.1\<close> still serves \<open>v41\<close>; the check for \<open>v42\<close>
  returns true all the same, in two ways.  In the execution \<open>afterTheLoop\<close> both
  goroutines run once the launching loop is over and read the loop variable that their
  closures share, which holds the last address by then: \<open>10.0.0.2\<close> is probed twice
  and \<open>10.0.0.1\<close> never.  In the execution \<open>withStraggler\<close> every goroutine probes
  its own address, but a goroutine that an earlier call left behind at its deadline
  counts its replica on the counter of the package in between, which makes up for the
  stale replica that was probed and not counted.
\<close>

theorem stale_replica_counts_as_converged:
  "getCurrentGWSnapshot staleFleet ''10.0.0.1'' = Inr ''v41''
   \<and> observed afterTheLoop (map PodIP twoPods) 0 = ''10.0.0.2''
   \<and> fst (CheckGatewaySnapshot staleFleet afterTheLoop quiet twoPods ''v42'') = (True, None)
   \<and> observed withStraggler (map PodIP twoPods) 0 = ''10.0.0.1''
   \<and> fst (CheckGatewaySnapshot staleFleet withStraggler onePending twoPods ''v42'') = (True, None)"
proof -
  have old: "getCurrentGWSnapshot staleFleet ''10.0.0.1'' = Inr ''v41''"
    by (simp add: probe_defs staleFleet_def)
  have new: "getCurrentGWSnapshot staleFleet ''10.0.0.2'' = Inr ''v42''"
    by (simp add: probe_defs staleFleet_def)
  have last: "observed afterTheLoop [''10.0.0.1'', ''10.0.0.2''] k = ''10.0.0.2''" for k
    by (simp add: observed_def afterTheLoop_def)
  have own: "observed withStraggler [''10.0.0.1'', ''10.0.0.2''] 0 = ''10.0.0.1''"
    "observed withStraggler [''10.0.0.1'', ''10.0.0.2''] (Suc 0) = ''10.0.0.2''"
    by (simp_all add: observed_def withStraggler_def)
  have acts: "actions afterTheLoop = [Probe 0, Done 0, Probe 1, Done 1]" "late afterTheLoop = []"
    "actions withStraggler = [Probe 0, Done 0, ForeignCount, ForeignDone, Probe 1, Done 1]"
    "late withStraggler = []"
    by (simp_all add: afterTheLoop_def withStraggler_def)
  have a: "fst (CheckGatewaySnapshot staleFleet afterTheLoop quiet twoPods ''v42'') = (True, None)"
    by (simp add: CheckGatewaySnapshot_def Let_def twoPods_def quiet_def step_def probe_def
          last new acts)
  have b: "fst (CheckGatewaySnapshot staleFleet withStraggler onePending twoPods ''v42'') = (True, None)"
    by (simp add: CheckGatewaySnapshot_def Let_def twoPods_def onePending_def step_def probe_def
          own old new acts)
  from old last [of 0] a own(1) b show ?thesis by (simp add: twoPods_def)
qed

text \<open>
  Claim C7.  A probe of the address \<open>ip\<close> sends exactly one request: method GET, URL
  \<open>http://ip:8081/__internalkouriersnapshot\<close>, Host \<open>internalkourier\<close>, no body.
  On status 200 it yields the value of the response header \<open>kourier-snapshot-id\<close>; on
  any other status it fails with the error \<open>status code n\<close>, where \<open>n\<close> is the status
  in decimal.  The goroutine counts the replica as in sync exactly when the probe did not
  fail and the value equals the expected identifier, as strings of bytes.
\<close>

theorem probe_protocol:
  "getCurrentGWSnapshot env ip =
     (case url_Parse env (''http://'' @ ip @ '':8081/__internalkouriersnapshot'') of
        Inl err \<Rightarrow> Inl err
      | Inr h \<Rightarrow>
          (case client_Do env
                  \<lparr>Method = ''GET'', URL = ''http://'' @ ip @ '':8081/__internalkouriersnapshot'',
                   Host = ''internalkourier'', Body = None\<rparr> of
             Inl err \<Rightarrow> Inl err
           | Inr resp \<Rightarrow>
               if StatusCode resp = 200
               then Inr (Header_Get (Header resp) ''kourier-snapshot-id'')
               else Inl (Errorf (''status code '' @ Itoa (StatusCode resp)))))
   \<and> probe env ip snapshotID inSync =
       (if getCurrentGWSnapshot env ip = Inr snapshotID then inSync + 1 else inSync)"
proof -
  have port: "Itoa (uint httpPortInternal) = ''8081''"
    by (simp add: httpPortInternal_def Itoa_def FormatUint.simps)
  have "getCurrentGWSnapshot env ip =
     (case url_Parse env (''http://'' @ ip @ '':8081/__internalkouriersnapshot'') of
        Inl err \<Rightarrow> Inl err
      | Inr h \<Rightarrow>
          (case client_Do env
                  \<lparr>Method = ''GET'', URL = ''http://'' @ ip @ '':8081/__internalkouriersnapshot'',
                   Host = ''internalkourier'', Body = None\<rparr> of
             Inl err \<Rightarrow> Inl err
           | Inr resp \<Rightarrow>
               if StatusCode resp = 200
               then Inr (Header_Get (Header resp) ''kourier-snapshot-id'')
               else Inl (Errorf (''status code '' @ Itoa (StatusCode resp)))))"
    unfolding getCurrentGWSnapshot_def buildInternalKourierRequest_def NewRequest_def port Let_def
    by (simp add: internalKourierPath_def internalKourierDomain_def internalKourierHeader_def
          StatusOK_def split: sum.splits)
  moreover have "probe env ip snapshotID inSync =
       (if getCurrentGWSnapshot env ip = Inr snapshotID then inSync + 1 else inSync)"
    by (simp add: probe_def split: sum.splits)
  ultimately show ?thesis by (rule conjI)
qed

theorem probe_protocol_witness:
  "getCurrentGWSnapshot (exampleGateway 404 Map.empty) ''10.0.0.2'' = Inl (ErrOther ''status code 404'')
   \<and> getCurrentGWSnapshot (exampleGateway 200 [''Kourier-Snapshot-Id'' \<mapsto> [''v42'']]) ''10.0.0.2''
       = Inr ''v42''
   \<and> probe (exampleGateway 200 [''Kourier-Snapshot-Id'' \<mapsto> [''v42'']]) ''10.0.0.2'' ''v43'' 0 = 0"
  using probe_protocol [of "exampleGateway 404 Map.empty" "''10.0.0.2''" "''v42''" 0]
    probe_protocol [of "exampleGateway 200 [''Kourier-Snapshot-Id'' \<mapsto> [''v42'']]" "''10.0.0.2''" "''v43''" 0]
  by (simp add: exampleGateway_def Header_Get_def CanonicalMIMEHeaderKey_def
        validHeaderFieldByte_def tokenBytes_def toUpperASCII_def toLowerASCII_def Itoa_def
        FormatUint.simps Errorf_def)

text \<open>
  Claim C9.  When the response has status 200 and no \<open>kourier-snapshot-id\<close> header
  (no entry under the canonical key), the probe yields the empty string and no error; so
  with the empty string as the expected identifier the replica is counted as in sync.
\<close>

theorem header_missing_is_empty_snapshot:
  assumes "buildInternalKourierRequest env ip = Inr req"
    and "client_Do env req = Inr resp"
    and "StatusCode resp = 200"
    and "Header resp ''Kourier-Snapshot-Id'' = None"
  shows "getCurrentGWSnapshot env ip = Inr ''''
       \<and> probe env ip '''' inSync = inSync + 1"
proof -
  have key: "CanonicalMIMEHeaderKey internalKourierHeader = ''Kourier-Snapshot-Id''"
    by (simp add: internalKourierHeader_def CanonicalMIMEHeaderKey_def validHeaderFieldByte_def
          tokenBytes_def toUpperASCII_def toLowerASCII_def)
  have "getCurrentGWSnapshot env ip = Inr ''''"
    using assms by (simp add: getCurrentGWSnapshot_def Header_Get_def key StatusOK_def)
  then show ?thesis by (simp add: probe_def)
qed

theorem header_missing_is_empty_snapshot_witness:
  "getCurrentGWSnapshot (exampleGateway 200 Map.empty) ''10.0.0.2'' = Inr ''''
   \<and> probe (exampleGateway 200 Map.empty) ''10.0.0.2'' '''' 0 = 1"
proof -
  let ?env = "exampleGateway 200 Map.empty"
  let ?req = "\<lparr>Method = ''GET'', URL = ''http://10.0.0.2:8081/__internalkouriersnapshot'',
               Host = ''internalkourier'', Body = None\<rparr>"
  have req: "buildInternalKourierRequest ?env ''10.0.0.2'' = Inr ?req"
    by (simp add: buildInternalKourierRequest_def NewRequest_def exampleGateway_def
          httpPortInternal_def internalKourierPath_def internalKourierDomain_def Itoa_def
          FormatUint.simps)
  have resp: "client_Do ?env ?req = Inr \<lparr>StatusCode = 200, Header = Map.empty\<rparr>"
    by (simp add: exampleGateway_def)
  show ?thesis
    using header_missing_is_empty_snapshot [OF req resp, of 0] by simp
qed


section \<open>Properties of the translation\<close>



text \<open>
  Claim C3, as stated, fails: the split \<open>c\<close> comes after the split \<open>gone\<close>, whose
  endpoints are not found, in the same Path, and on its own \<open>c\<close> would resolve.  With
  the translator that the constructor builds, the call panics where the failure of
  \<open>gone\<close> is logged.  With a logger in place the loop over the splits is left at
  \<open>gone\<close>: no call is made for \<open>c\<close>, and the plan has no cluster and no weighted
  cluster for it.
\<close>

theorem later_split_is_skipped:
  "splitFails exampleTranslator threeSplits (exampleSplit ''gone'' 80)
   \<and> \<not> splitFails exampleTranslator threeSplits (exampleSplit ''c'' 80)
   \<and> translateIngress exampleDeps exampleTranslator threeSplits 0 False =
       ([Call_Track \<lparr>Ref_Kind = ''Endpoints'', Ref_APIVersion = ''v1'',
                     Ref_Namespace = ''default'', Ref_Name = ''a''\<rparr>,
         Call_EndpointsGet ''default'' ''a'',
         Call_ServicesGet ''default'' ''a'',
         Call_Track \<lparr>Ref_Kind = ''Endpoints'', Ref_APIVersion = ''v1'',
                     Ref_Namespace = ''default'', Ref_Name = ''gone''\<rparr>,
         Call_EndpointsGet ''default'' ''gone''],
        Panic)
   \<and> translateIngress exampleDeps loggingTranslator threeSplits 0 False =
       ([Call_Track \<lparr>Ref_Kind = ''Endpoints'', Ref_APIVersion = ''v1'',
                     Ref_Namespace = ''default'', Ref_Name = ''a''\<rparr>,
         Call_EndpointsGet ''default'' ''a'',
         Call_ServicesGet ''default'' ''a'',
         Call_Track \<lparr>Ref_Kind = ''Endpoints'', Ref_APIVersion = ''v1'',
                     Ref_Namespace = ''default'', Ref_Name = ''gone''\<rparr>,
         Call_EndpointsGet ''default'' ''gone'',
         Log_Infof (''Endpoints '' @ quoted ''default'' ''gone'' @ '' not yet created'')],
        Returned
          \<lparr>ingressName = ''hello'', ingressNamespace = ''default'', sniMatches = [],
           routes =
             [NewRoute ''hello_0'' ''/'' [NewWeightedCluster ''a/'' 50 Map.empty] 0 0 0 Map.empty],
           clusters =
             [NewCluster ''a/'' 5000000000 [NewLBEndpoint ''10.0.0.7'' 8080] False Cluster_STATIC],
           externalVirtualHosts =
             [NewVirtualHost ''hello'' [''hello.example.com'']
                [NewRoute ''hello_0'' ''/'' [NewWeightedCluster ''a/'' 50 Map.empty] 0 0 0
                   Map.empty]],
           internalVirtualHosts =
             [NewVirtualHost ''hello'' [''hello.example.com'']
                [NewRoute ''hello_0'' ''/'' [NewWeightedCluster ''a/'' 50 Map.empty] 0 0 0
                   Map.empty]]\<rparr>)"
  by (simp add: threeSplits_def loggingTranslator_def example_defs model_defs splitFails_def
        trackFails_def endpointsFail_def serviceFails_def)

text \<open>
  Claim C3, amended.  On a translator that has a logger, when the tracking call, the
  endpoints fetch or the service fetch of a split fails (the first split of its Path to
  do so), the failure is logged and the loop over the Path's splits ends there: the
  failing split and every split after it in the Path are skipped, with no collaborator
  call, no cluster and no weighted cluster for the later ones, while the splits before it
  keep their clusters and weighted clusters.  The Path has a route exactly when there is
  a split before the failing one, and the loop over the Paths goes on with the next
  Path.  The Rule is aborted, with the error \<open>ingress without routes\<close>, exactly
  when none of its Paths has a route; otherwise the loop over the Rules goes on with the
  next Rule.  The whole call fails with that error when the Rule has no route and the
  TLS entries and the Rules before it are in order; a plan that is returned has, for this
  Path, the clusters of the splits before the failing one and no other.
\<close>

theorem failing_split_ends_the_splits_loop:
  assumes "splitFails tr ing bad"
    and "logger tr = Some sink"
    and "Splits httpPath = pre @ bad # post"
    and "list_all (\<lambda>split. \<not> splitFails tr ing split) pre"
    and "HTTP rule = Some http"
    and "Paths http = before @ httpPath # after"
    and "Rules (Spec ing) = earlier @ rule # later"
  shows
    "let path = effectivePath httpPath;
         kept = map (clusterOf tr ing path) pre;
         refs = map (weightedClusterOf tr ing path) pre;
         events = concat (map (\<lambda>split. fst (translateSplit tr ing path split)) (pre @ [bad]));
         route = (if pre = [] then []
                  else [createRouteForRevision (Name ing) index httpPath refs]);
         ruleRoute = pathRoutes tr ing index before @ route @ pathRoutes tr ing index after
     in snd (translateSplit tr ing path bad) = Break
        \<and> isLog (last (fst (translateSplit tr ing path bad)))
        \<and> splitsLoop tr ing path (Splits httpPath) (res, wrs, t) =
            Inr (res\<lparr>clusters := clusters res @ kept\<rparr>, wrs @ refs, t @ events)
        \<and> pathsLoop tr ing index (httpPath # rest) (res, rr, t) =
            pathsLoop tr ing index rest
              (res\<lparr>routes := routes res @ route, clusters := clusters res @ kept\<rparr>,
               rr @ route, t @ events)
        \<and> snd (rulesLoop d tr ing index ext (rule # rules) (res, t)) =
            (if ruleRoute = [] then Failed (Errorf ''ingress without routes'')
             else snd (rulesLoop d tr ing index ext rules
                    (addRules d tr ing index ext [rule] res,
                     traceOf (pathsLoop tr ing index (Paths http) (res, [], t)))))
        \<and> ruleRoutes tr ing index rule = ruleRoute
        \<and> ruleClusters tr ing rule =
            concat (map (pathClusters tr ing) before) @ kept
            @ concat (map (pathClusters tr ing) after)
        \<and> (list_all (\<lambda>x. \<not> secretFails d x) (TLS (Spec ing))
            \<and> list_all (\<lambda>r. HTTP r \<noteq> None \<and> ruleRoutes tr ing index r \<noteq> []) earlier
            \<and> ruleRoute = []
            \<longrightarrow> snd (translateIngress d tr ing index ext)
                  = Failed (Errorf ''ingress without routes''))
        \<and> (snd (translateIngress d tr ing index ext) = Returned plan
            \<longrightarrow> ruleRoute \<noteq> []
              \<and> clusters plan =
                  concat (map (ruleClusters tr ing) earlier)
                  @ concat (map (pathClusters tr ing) before) @ kept
                  @ concat (map (pathClusters tr ing) after)
                  @ concat (map (ruleClusters tr ing) later))"
proof -
  let ?path = "effectivePath httpPath"
  let ?kept = "map (clusterOf tr ing ?path) pre"
  let ?refs = "map (weightedClusterOf tr ing ?path) pre"
  let ?events = "concat (map (\<lambda>split. fst (translateSplit tr ing ?path split)) (pre @ [bad]))"
  let ?route = "if pre = [] then [] else [createRouteForRevision (Name ing) index httpPath ?refs]"
  let ?ruleRoute = "pathRoutes tr ing index before @ ?route @ pathRoutes tr ing index after"
  note failed = translateSplit_failed [OF assms(1,2), of ?path]
  have proc: "processed tr ing httpPath = pre"
    by (rule processed_failing [OF assms(1,3,4)])
  then have prefix: "takeWhile (resolves tr ing ?path) (Splits httpPath) = pre"
    by (simp add: processed_def)
  have calm: "\<not> splitsPanic tr ing ?path (Splits httpPath)"
    by (simp add: splitsPanic_def assms(2))
  have trace: "splitsTrace tr ing ?path (Splits httpPath) = ?events"
    unfolding splitsTrace_def prefix by (simp add: assms(3))
  have splits: "splitsLoop tr ing ?path (Splits httpPath) (res, wrs, t) =
      Inr (res\<lparr>clusters := clusters res @ ?kept\<rparr>, wrs @ ?refs, t @ ?events)"
    unfolding splitsLoop_eq prefix trace using calm by simp
  have refs: "pathWeightedClusters tr ing httpPath = ?refs"
    by (simp add: pathWeightedClusters_def proc)
  have kept: "pathClusters tr ing httpPath = ?kept"
    by (simp add: pathClusters_def proc)
  have route: "pathRoutes tr ing index [httpPath] = ?route"
    by (simp add: pathRoutes_def refs)
  have paths: "pathsLoop tr ing index (httpPath # rest) (res, rr, t) =
      pathsLoop tr ing index rest
        (res\<lparr>routes := routes res @ ?route, clusters := clusters res @ ?kept\<rparr>,
         rr @ ?route, t @ ?events)"
    unfolding pathsLoop_step route kept trace using calm by simp
  have rp: "rulePaths rule = Paths http"
    by (simp add: rulePaths_def assms(5))
  have rr: "ruleRoutes tr ing index rule = ?ruleRoute"
    unfolding ruleRoutes_def rp assms(6) pathRoutes_append
      pathRoutes_Cons [of tr ing index httpPath after] route ..
  have rc: "ruleClusters tr ing rule =
      concat (map (pathClusters tr ing) before) @ ?kept @ concat (map (pathClusters tr ing) after)"
    by (simp add: ruleClusters_def rp assms(6) kept)
  have quiet: "\<not> pathsPanic tr ing paths" for paths
    by (rule no_logger_no_panic [OF assms(2)])
  have ok: "ruleOK tr ing index r = (HTTP r \<noteq> None \<and> ruleRoutes tr ing index r \<noteq> [])" for r
    by (simp add: ruleOK_def quiet)
  have rule: "snd (rulesLoop d tr ing index ext (rule # rules) (res, t)) =
      (if ?ruleRoute = [] then Failed (Errorf ''ingress without routes'')
       else snd (rulesLoop d tr ing index ext rules
              (addRules d tr ing index ext [rule] res,
               traceOf (pathsLoop tr ing index (Paths http) (res, [], t)))))"
  proof (cases "?ruleRoute = []")
    case True
    then have "\<not> ruleOK tr ing index rule" by (simp only: ok rr) simp
    from rulesLoop_stop [OF this, of d ext rules res t] True show ?thesis
      by (simp only: assms(5) quiet) simp
  next
    case False
    then have "ruleOK tr ing index rule" by (simp only: ok rr assms(5)) simp
    from rulesLoop_step [OF this, of d ext rules res t] False show ?thesis
      by (simp only: rp) simp
  qed
  have abort: "snd (translateIngress d tr ing index ext) = Failed (Errorf ''ingress without routes'')"
    if tls: "list_all (\<lambda>x. \<not> secretFails d x) (TLS (Spec ing))"
      and earlier: "list_all (\<lambda>r. HTTP r \<noteq> None \<and> ruleRoutes tr ing index r \<noteq> []) earlier"
      and none: "?ruleRoute = []"
  proof -
    from none have bad: "\<not> ruleOK tr ing index rule" by (simp only: ok rr) simp
    then have not_all: "\<not> list_all (ruleOK tr ing index) (Rules (Spec ing))"
      by (simp add: assms(7))
    from earlier have "\<And>r. r \<in> set earlier \<Longrightarrow> ruleOK tr ing index r"
      by (simp add: ok list_all_iff)
    then have "dropWhile (ruleOK tr ing index) (Rules (Spec ing)) = rule # later"
      using bad by (simp add: assms(7) dropWhile_append2)
    with rulesLoop_stops [OF not_all] show ?thesis
      unfolding translateIngress_tls_ok [OF tls] by (simp add: assms(5) quiet)
  qed
  have plan: "?ruleRoute \<noteq> []
      \<and> clusters plan =
          concat (map (ruleClusters tr ing) earlier)
          @ concat (map (pathClusters tr ing) before) @ ?kept
          @ concat (map (pathClusters tr ing) after)
          @ concat (map (ruleClusters tr ing) later)"
    if run: "snd (translateIngress d tr ing index ext) = Returned plan"
  proof -
    from translateIngress_Returned [OF run]
    have all: "list_all (ruleOK tr ing index) (Rules (Spec ing))"
      and p: "plan = planOf d tr ing index ext" by simp_all
    from all have "ruleOK tr ing index rule" by (simp add: assms(7))
    then have "?ruleRoute \<noteq> []" by (simp only: ok rr) simp
    moreover have "clusters plan =
          concat (map (ruleClusters tr ing) earlier)
          @ concat (map (pathClusters tr ing) before) @ ?kept
          @ concat (map (pathClusters tr ing) after)
          @ concat (map (ruleClusters tr ing) later)"
      by (simp add: p planOf_def addRules_def newTranslatedIngress_def assms(7) rc)
    ultimately show ?thesis by simp
  qed
  from failed splits paths rule rr rc abort plan show ?thesis
    unfolding Let_def by blast
qed

theorem failing_split_ends_the_splits_loop_witness:
  "splitsLoop loggingTranslator threeSplits ''/''
      [exampleSplit ''a'' 80, exampleSplit ''gone'' 80, exampleSplit ''c'' 80]
      (newTranslatedIngress ''hello'' ''default'', [], []) =
     Inr ((newTranslatedIngress ''hello'' ''default'')
            \<lparr>clusters := [NewCluster ''a/'' 5000000000 [NewLBEndpoint ''10.0.0.7'' 8080] False
                           Cluster_STATIC]\<rparr>,
          [NewWeightedCluster ''a/'' 50 Map.empty],
          [Call_Track \<lparr>Ref_Kind = ''Endpoints'', Ref_APIVersion = ''v1'',
                       Ref_Namespace = ''default'', Ref_Name = ''a''\<rparr>,
           Call_EndpointsGet ''default'' ''a'',
           Call_ServicesGet ''default'' ''a'',
           Call_Track \<lparr>Ref_Kind = ''Endpoints'', Ref_APIVersion = ''v1'',
                       Ref_Namespace = ''default'', Ref_Name = ''gone''\<rparr>,
           Call_EndpointsGet ''default'' ''gone'',
           Log_Infof (''Endpoints '' @ quoted ''default'' ''gone'' @ '' not yet created'')])
   \<and> clusters (planOf exampleDeps loggingTranslator threeSplits 0 False) =
       [NewCluster ''a/'' 5000000000 [NewLBEndpoint ''10.0.0.7'' 8080] False Cluster_STATIC]
   \<and> snd (translateIngress exampleDeps loggingTranslator noRoutes 0 False) =
       Failed (Errorf ''ingress without routes'')"
proof -
  let ?a = "exampleSplit ''a'' 80"
  let ?gone = "exampleSplit ''gone'' 80"
  let ?c = "exampleSplit ''c'' 80"
  let ?untracked = "exampleSplit ''untracked'' 80"
  let ?p = "examplePath '''' [?a, ?gone, ?c]"
  let ?rule = "exampleRule ''ExternalIP'' [?p]"
  let ?p1 = "examplePath '''' [?untracked]"
  let ?p2 = "examplePath ''/x'' [?gone]"
  let ?first = "exampleRule ''ClusterLocal'' [examplePath '''' [?a]]"
  let ?second = "exampleRule ''ClusterLocal'' [?p1, ?p2]"
  have log: "logger loggingTranslator = Some SugaredLogger"
    by (simp add: loggingTranslator_def)
  have fails: "splitFails loggingTranslator ing ?gone" "splitFails loggingTranslator ing ?untracked"
    "\<not> splitFails loggingTranslator ing ?a" for ing
    by (simp_all add: splitFails_def trackFails_def endpointsFail_def serviceFails_def
          loggingTranslator_def example_defs)
  have path: "effectivePath ?p = ''/''"
    by (simp add: effectivePath_def examplePath_def)
  have a: "translateSplit loggingTranslator threeSplits ''/'' ?a =
      ([Call_Track \<lparr>Ref_Kind = ''Endpoints'', Ref_APIVersion = ''v1'',
                    Ref_Namespace = ''default'', Ref_Name = ''a''\<rparr>,
        Call_EndpointsGet ''default'' ''a'', Call_ServicesGet ''default'' ''a''],
       Emit (NewCluster ''a/'' 5000000000 [NewLBEndpoint ''10.0.0.7'' 8080] False Cluster_STATIC)
            (NewWeightedCluster ''a/'' 50 Map.empty))"
    by (simp add: threeSplits_def loggingTranslator_def example_defs model_defs)
  have gone: "fst (translateSplit loggingTranslator threeSplits ''/'' ?gone) =
      [Call_Track \<lparr>Ref_Kind = ''Endpoints'', Ref_APIVersion = ''v1'',
                   Ref_Namespace = ''default'', Ref_Name = ''gone''\<rparr>,
       Call_EndpointsGet ''default'' ''gone'',
       Log_Infof (''Endpoints '' @ quoted ''default'' ''gone'' @ '' not yet created'')]"
    by (simp add: threeSplits_def loggingTranslator_def example_defs model_defs)
  have one: "Splits ?p = [?a] @ ?gone # [?c]" "HTTP ?rule = Some \<lparr>Paths = [?p]\<rparr>"
    "Paths \<lparr>Paths = [?p]\<rparr> = [] @ ?p # []" "Rules (Spec threeSplits) = [] @ ?rule # []"
    by (simp_all add: threeSplits_def exampleIngress_def exampleRule_def examplePath_def)
  have pre: "list_all (\<lambda>split. \<not> splitFails loggingTranslator threeSplits split) [?a]"
    by (simp add: fails)
  note three = failing_split_ends_the_splits_loop
    [OF fails(1) log one(1) pre one(2,3,4), unfolded Let_def path,
     where res = "newTranslatedIngress ''hello'' ''default''" and wrs = "[]" and t = "[]"
       and d = exampleDeps and index = 0 and ext = False
       and plan = "planOf exampleDeps loggingTranslator threeSplits 0 False"]
  from three [THEN conjunct2, THEN conjunct2, THEN conjunct1]
  have loop: "splitsLoop loggingTranslator threeSplits ''/'' [?a, ?gone, ?c]
      (newTranslatedIngress ''hello'' ''default'', [], []) =
     Inr ((newTranslatedIngress ''hello'' ''default'')
            \<lparr>clusters := [NewCluster ''a/'' 5000000000 [NewLBEndpoint ''10.0.0.7'' 8080] False
                           Cluster_STATIC]\<rparr>,
          [NewWeightedCluster ''a/'' 50 Map.empty],
          [Call_Track \<lparr>Ref_Kind = ''Endpoints'', Ref_APIVersion = ''v1'',
                       Ref_Namespace = ''default'', Ref_Name = ''a''\<rparr>,
           Call_EndpointsGet ''default'' ''a'',
           Call_ServicesGet ''default'' ''a'',
           Call_Track \<lparr>Ref_Kind = ''Endpoints'', Ref_APIVersion = ''v1'',
                       Ref_Namespace = ''default'', Ref_Name = ''gone''\<rparr>,
           Call_EndpointsGet ''default'' ''gone'',
           Log_Infof (''Endpoints '' @ quoted ''default'' ''gone'' @ '' not yet created'')])"
    by (simp add: one(1) a gone clusterOf_def weightedClusterOf_def newTranslatedIngress_def
          del: splitsLoop.simps)
  from three [THEN conjunct2, THEN conjunct2, THEN conjunct2, THEN conjunct2, THEN conjunct2,
      THEN conjunct2, THEN conjunct2, THEN conjunct2] threeSplits_plan
  have plan: "clusters (planOf exampleDeps loggingTranslator threeSplits 0 False) =
       [NewCluster ''a/'' 5000000000 [NewLBEndpoint ''10.0.0.7'' 8080] False Cluster_STATIC]"
    by (simp add: a clusterOf_def)
  have two: "Splits ?p1 = [] @ ?untracked # []" "HTTP ?second = Some \<lparr>Paths = [?p1, ?p2]\<rparr>"
    "Paths \<lparr>Paths = [?p1, ?p2]\<rparr> = [] @ ?p1 # [?p2]"
    "Rules (Spec noRoutes) = [?first] @ ?second # []"
    by (simp_all add: noRoutes_def exampleIngress_def exampleRule_def examplePath_def)
  have none: "list_all (\<lambda>split. \<not> splitFails loggingTranslator noRoutes split) []"
    by simp
  have tls: "list_all (\<lambda>x. \<not> secretFails exampleDeps x) (TLS (Spec noRoutes))"
    by (simp add: noRoutes_def exampleIngress_def)
  have earlier: "list_all (\<lambda>r. HTTP r \<noteq> None \<and> ruleRoutes loggingTranslator noRoutes 0 r \<noteq> [])
      [?first]"
    by (simp add: ruleRoutes_empty rulePaths_def pathWeightedClusters_def processed_def
          resolves_iff fails exampleRule_def examplePath_def)
  have after: "pathRoutes loggingTranslator noRoutes 0 [?p2] = []"
    by (simp add: pathRoutes_def pathWeightedClusters_def processed_def resolves_iff fails
          examplePath_def)
  from failing_split_ends_the_splits_loop
    [OF fails(2) log two(1) none two(2,3,4), unfolded Let_def,
     where d = exampleDeps and index = 0 and ext = False,
     THEN conjunct2, THEN conjunct2, THEN conjunct2, THEN conjunct2, THEN conjunct2,
     THEN conjunct2, THEN conjunct2, THEN conjunct1]
    tls earlier after
  have abort: "snd (translateIngress exampleDeps loggingTranslator noRoutes 0 False) =
       Failed (Errorf ''ingress without routes'')"
    by (simp add: pathRoutes_def)
  from loop plan abort show ?thesis by (intro conjI)
qed

text \<open>
  Claim C4, as stated, fails: the service \<open>dual\<close> declares port 80 twice.  The first
  match is the port \<open>h2c\<close> with target port 8080, yet the cluster of the plan has
  target port 5353 and no h2 upgrade, as the second declaration says.
\<close>

theorem first_matching_port_is_overwritten:
  "hd (filter (portMatches (ServicePort (exampleSplit ''dual'' 80))) (Ports dualService)) =
     \<lparr>Port_Name = ''h2c'', Port = 80,
      TargetPort = \<lparr>Type = Intstr_Int, IntVal = 8080, StrVal = ''''\<rparr>\<rparr>
   \<and> snd (translateIngress exampleDeps exampleTranslator dualPort 0 False) =
       Returned
         \<lparr>ingressName = ''hello'', ingressNamespace = ''default'', sniMatches = [],
          routes =
            [NewRoute ''hello_0'' ''/'' [NewWeightedCluster ''dual/'' 50 Map.empty] 0 0 0
               Map.empty],
          clusters =
            [NewCluster ''dual/'' 5000000000 [NewLBEndpoint ''10.0.0.7'' 5353] False
               Cluster_STATIC],
          externalVirtualHosts =
            [NewVirtualHost ''hello'' [''hello.example.com'']
               [NewRoute ''hello_0'' ''/'' [NewWeightedCluster ''dual/'' 50 Map.empty] 0 0 0
                  Map.empty]],
          internalVirtualHosts =
            [NewVirtualHost ''hello'' [''hello.example.com'']
               [NewRoute ''hello_0'' ''/'' [NewWeightedCluster ''dual/'' 50 Map.empty] 0 0 0
                  Map.empty]]\<rparr>"
  by (simp add: dualPort_def example_defs model_defs portMatches_def)

text \<open>
  Claim C4, amended.  When the declared port of a split (by number or by name) matches
  one or more of the service's declared ports, the target port and the h2 decision of
  its cluster are those of the last matching port.
\<close>

theorem last_matching_port_wins:
  assumes "\<not> trackFails tr ing split"
    and "endpointsLister tr (ServiceNamespace split) (ServiceName split) = Inr endpoints"
    and "kubeclient tr (ServiceNamespace split) (ServiceName split) = Inr service"
    and "filter (portMatches (ServicePort split)) (Ports service) = matching"
    and "matching \<noteq> []"
  shows "snd (translateSplit tr ing path split) =
     Emit (NewCluster (ServiceName split @ path) (5 * Second)
             (lbEndpointsForKubeEndpoints endpoints (IntVal (TargetPort (last matching))))
             (Port_Name (last matching) = ''http2'' \<or> Port_Name (last matching) = ''h2c'')
             Cluster_STATIC)
          (NewWeightedCluster (ServiceName split @ path) (ucast (Percent split))
             (Split_AppendHeaders split))"
proof -
  from assms(4,5) have "filter (portMatches (ServicePort split)) (Ports service) \<noteq> []"
    by simp
  from portsLoop_last [OF this, of 0 False] assms(4)
  show ?thesis
    by (simp add: translateSplit_resolved [OF assms(1,2,3)])
qed

theorem last_matching_port_wins_witness:
  "snd (translateSplit exampleTranslator dualPort ''/'' (exampleSplit ''dual'' 80)) =
     Emit (NewCluster ''dual/'' (5 * Second) [NewLBEndpoint ''10.0.0.7'' 5353] False Cluster_STATIC)
          (NewWeightedCluster ''dual/'' 50 Map.empty)"
proof -
  let ?split = "exampleSplit ''dual'' 80"
  have t: "\<not> trackFails exampleTranslator dualPort ?split"
    by (simp add: trackFails_def exampleTranslator_def NewIngressTranslator_def exampleSplit_def)
  have e: "endpointsLister exampleTranslator (ServiceNamespace ?split) (ServiceName ?split)
             = Inr exampleEndpoints"
    by (simp add: exampleTranslator_def NewIngressTranslator_def exampleSplit_def)
  have s: "kubeclient exampleTranslator (ServiceNamespace ?split) (ServiceName ?split)
             = Inr dualService"
    by (simp add: exampleTranslator_def NewIngressTranslator_def exampleSplit_def)
  have m: "filter (portMatches (ServicePort ?split)) (Ports dualService) = Ports dualService"
    by (simp add: portMatches_def exampleSplit_def dualService_def)
  have n: "Ports dualService \<noteq> []"
    by (simp add: dualService_def)
  from last_matching_port_wins [OF t e s m n, of "''/''"]
  show ?thesis
    by (simp add: exampleSplit_def dualService_def exampleEndpoints_def
          lbEndpointsForKubeEndpoints_def)
qed

text \<open>
  Claim C5, as stated, fails: no port of the service matches the port 9999 of the split
  \<open>c\<close>, yet the plan has the cluster \<open>c/api\<close> (at target port 0) and its weighted
  cluster, and the trace has no log line.
\<close>

theorem unmatched_port_emits_cluster:
  "filter (declaredPortMatches (ServicePort (exampleSplit ''c'' 9999))) (Ports exampleService) = []
   \<and> translateIngress exampleDeps exampleTranslator unmatchedPort 0 False =
       ([Call_Track \<lparr>Ref_Kind = ''Endpoints'', Ref_APIVersion = ''v1'',
                     Ref_Namespace = ''default'', Ref_Name = ''a''\<rparr>,
         Call_EndpointsGet ''default'' ''a'',
         Call_ServicesGet ''default'' ''a'',
         Call_Track \<lparr>Ref_Kind = ''Endpoints'', Ref_APIVersion = ''v1'',
                     Ref_Namespace = ''default'', Ref_Name = ''c''\<rparr>,
         Call_EndpointsGet ''default'' ''c'',
         Call_ServicesGet ''default'' ''c''],
        Returned
          \<lparr>ingressName = ''hello'', ingressNamespace = ''default'', sniMatches = [],
           routes =
             [NewRoute ''hello_0'' ''/'' [NewWeightedCluster ''a/'' 50 Map.empty] 0 0 0 Map.empty,
              NewRoute ''hello_0'' ''/api'' [NewWeightedCluster ''c/api'' 50 Map.empty] 0 0 0
                Map.empty],
           clusters =
             [NewCluster ''a/'' 5000000000 [NewLBEndpoint ''10.0.0.7'' 8080] False Cluster_STATIC,
              NewCluster ''c/api'' 5000000000 [NewLBEndpoint ''10.0.0.7'' 0] False
                Cluster_STATIC],
           externalVirtualHosts = [],
           internalVirtualHosts =
             [NewVirtualHost ''hello'' [''hello.example.com'']
                [NewRoute ''hello_0'' ''/'' [NewWeightedCluster ''a/'' 50 Map.empty] 0 0 0
                   Map.empty,
                 NewRoute ''hello_0'' ''/api'' [NewWeightedCluster ''c/api'' 50 Map.empty] 0 0 0
                   Map.empty]]\<rparr>)"
  by (simp add: unmatchedPort_def example_defs model_defs declaredPortMatches_def)

text \<open>
  Claim C5, amended.  A split whose declared port (the number of a numeric port, the name
  of a named one) matches none of the service's declared ports is no failure: nothing is
  logged (the events of the pass are the collaborator calls alone) and the split is not
  skipped.  Its cluster and its weighted cluster are emitted.  The cluster has target
  port 0 and no h2 upgrade, unless a service port agrees with the half of the split's
  port that was not declared (the empty name of a numeric port, the number 0 of a named
  one): then the target port and the h2 decision are those of the last such service
  port.  A numeric port against a service whose ports all have names, and a named port
  against a service without a port 0, get target port 0.  The loop over the splits goes
  on with the next split.  When the splits before it in the Path did not fail either,
  the Path has a route, which carries the weighted cluster; so the Rule has a route and
  is not aborted (the loop over the Rules goes on with the next Rule, unless another
  split of the Rule fails on a translator without a logger), and a plan that is returned
  contains the cluster.
\<close>

theorem unmatched_port_is_no_failure:
  assumes "\<not> trackFails tr ing split"
    and "endpointsLister tr (ServiceNamespace split) (ServiceName split) = Inr endpoints"
    and "kubeclient tr (ServiceNamespace split) (ServiceName split) = Inr service"
    and "list_all (\<lambda>port. \<not> declaredPortMatches (ServicePort split) port) (Ports service)"
    and "Splits httpPath = pre @ split # post"
    and "list_all (\<lambda>split. \<not> splitFails tr ing split) pre"
    and "HTTP rule = Some http"
    and "Paths http = before @ httpPath # after"
  shows
    "let others = filter (undeclaredPortMatches (ServicePort split)) (Ports service);
         targetPort = (if others = [] then 0 else IntVal (TargetPort (last others)));
         http2 = (others \<noteq> []
                  \<and> (Port_Name (last others) = ''http2'' \<or> Port_Name (last others) = ''h2c''));
         events = (case tracker tr of
                     None \<Rightarrow> []
                   | Some Track \<Rightarrow>
                       [Call_Track \<lparr>Ref_Kind = ''Endpoints'', Ref_APIVersion = ''v1'',
                                    Ref_Namespace = Namespace ing, Ref_Name = ServiceName split\<rparr>])
                  @ [Call_EndpointsGet (ServiceNamespace split) (ServiceName split),
                     Call_ServicesGet (ServiceNamespace split) (ServiceName split)];
         cluster = (\<lambda>path. NewCluster (ServiceName split @ path) (5 * Second)
                      (lbEndpointsForKubeEndpoints endpoints targetPort) http2 Cluster_STATIC);
         weightedCluster = (\<lambda>path. NewWeightedCluster (ServiceName split @ path)
                              (ucast (Percent split)) (Split_AppendHeaders split))
     in translateSplit tr ing path split = (events, Emit (cluster path) (weightedCluster path))
        \<and> (Type (ServicePort split) = Intstr_Int \<and> StrVal (ServicePort split) = ''''
            \<and> list_all (\<lambda>port. Port_Name port \<noteq> '''') (Ports service) \<longrightarrow> others = [])
        \<and> (Type (ServicePort split) = Intstr_String \<and> IntVal (ServicePort split) = 0
            \<and> list_all (\<lambda>port. Port port \<noteq> 0) (Ports service) \<longrightarrow> others = [])
        \<and> splitsLoop tr ing path (split # rest) (res, wrs, t) =
            splitsLoop tr ing path rest
              (res\<lparr>clusters := clusters res @ [cluster path]\<rparr>, wrs @ [weightedCluster path],
               t @ events)
        \<and> take (Suc (length pre)) (pathWeightedClusters tr ing httpPath) =
            map (weightedClusterOf tr ing (effectivePath httpPath)) pre
            @ [weightedCluster (effectivePath httpPath)]
        \<and> take (Suc (length pre)) (pathClusters tr ing httpPath) =
            map (clusterOf tr ing (effectivePath httpPath)) pre
            @ [cluster (effectivePath httpPath)]
        \<and> pathRoutes tr ing index [httpPath] =
            [createRouteForRevision (Name ing) index httpPath
               (pathWeightedClusters tr ing httpPath)]
        \<and> ruleRoutes tr ing index rule =
            pathRoutes tr ing index before
            @ [createRouteForRevision (Name ing) index httpPath
                 (pathWeightedClusters tr ing httpPath)]
            @ pathRoutes tr ing index after
        \<and> snd (rulesLoop d tr ing index ext (rule # rules) (res, t)) =
            (if pathsPanic tr ing (Paths http) then Panic
             else snd (rulesLoop d tr ing index ext rules
                    (addRules d tr ing index ext [rule] res,
                     traceOf (pathsLoop tr ing index (Paths http) (res, [], t)))))
        \<and> (rule \<in> set (Rules (Spec ing))
            \<and> snd (translateIngress d tr ing index ext) = Returned plan
            \<longrightarrow> cluster (effectivePath httpPath) \<in> set (clusters plan))"
proof -
  let ?others = "filter (undeclaredPortMatches (ServicePort split)) (Ports service)"
  let ?targetPort = "if ?others = [] then 0 else IntVal (TargetPort (last ?others))"
  let ?http2 = "?others \<noteq> []
      \<and> (Port_Name (last ?others) = ''http2'' \<or> Port_Name (last ?others) = ''h2c'')"
  let ?events = "(case tracker tr of
                     None \<Rightarrow> []
                   | Some Track \<Rightarrow>
                       [Call_Track \<lparr>Ref_Kind = ''Endpoints'', Ref_APIVersion = ''v1'',
                                    Ref_Namespace = Namespace ing, Ref_Name = ServiceName split\<rparr>])
                  @ [Call_EndpointsGet (ServiceNamespace split) (ServiceName split),
                     Call_ServicesGet (ServiceNamespace split) (ServiceName split)]"
  let ?cluster = "\<lambda>path. NewCluster (ServiceName split @ path) (5 * Second)
                      (lbEndpointsForKubeEndpoints endpoints ?targetPort) ?http2 Cluster_STATIC"
  let ?weightedCluster = "\<lambda>path. NewWeightedCluster (ServiceName split @ path)
                              (ucast (Percent split)) (Split_AppendHeaders split)"
  let ?path = "effectivePath httpPath"
  have ev: "trackEvents tr ing split =
         (case tracker tr of
            None \<Rightarrow> []
          | Some Track \<Rightarrow> [Call_Track \<lparr>Ref_Kind = ''Endpoints'', Ref_APIVersion = ''v1'',
                              Ref_Namespace = Namespace ing, Ref_Name = ServiceName split\<rparr>])"
    by (simp add: trackEvents_def trackSplit_def split: option.splits)
  have ports: "portsLoop (ServicePort split) (Ports service) (0, False) = (?targetPort, ?http2)"
    unfolding portsLoop_eq filter_undeclared [OF assms(4)] by simp
  have ts: "translateSplit tr ing path split = (?events, Emit (?cluster path) (?weightedCluster path))"
    for path
    unfolding translateSplit_resolved [OF assms(1,2,3)] ports ev by simp
  have numeric: "?others = []"
    if "Type (ServicePort split) = Intstr_Int \<and> StrVal (ServicePort split) = ''''
        \<and> list_all (\<lambda>port. Port_Name port \<noteq> '''') (Ports service)"
    using that by (simp add: filter_empty_conv undeclaredPortMatches_def list_all_iff)
  have named: "?others = []"
    if "Type (ServicePort split) = Intstr_String \<and> IntVal (ServicePort split) = 0
        \<and> list_all (\<lambda>port. Port port \<noteq> 0) (Ports service)"
    using that by (simp add: filter_empty_conv undeclaredPortMatches_def list_all_iff)
  have step: "splitsLoop tr ing path (split # rest) (res, wrs, t) =
      splitsLoop tr ing path rest
        (res\<lparr>clusters := clusters res @ [?cluster path]\<rparr>, wrs @ [?weightedCluster path],
         t @ ?events)"
    unfolding splitsLoop.simps ts by simp
  have ok: "resolves tr ing ?path split"
    using assms(1,2,3)
    by (simp add: resolves_iff splitFails_def endpointsFail_def serviceFails_def)
  from assms(6) have "list_all (resolves tr ing ?path) pre"
    by (simp add: list_all_iff resolves_iff)
  from takeWhile_prefix [OF this] ok
  have proc: "processed tr ing httpPath =
      pre @ split # takeWhile (resolves tr ing ?path) post"
    by (simp add: processed_def assms(5))
  have c: "clusterOf tr ing ?path split = ?cluster ?path"
    and w: "weightedClusterOf tr ing ?path split = ?weightedCluster ?path"
    by (simp_all add: clusterOf_def weightedClusterOf_def ts)
  have refs: "take (Suc (length pre)) (pathWeightedClusters tr ing httpPath) =
      map (weightedClusterOf tr ing ?path) pre @ [?weightedCluster ?path]"
    by (simp add: pathWeightedClusters_def proc w)
  have kept: "take (Suc (length pre)) (pathClusters tr ing httpPath) =
      map (clusterOf tr ing ?path) pre @ [?cluster ?path]"
    by (simp add: pathClusters_def proc c)
  have some: "pathWeightedClusters tr ing httpPath \<noteq> []"
    by (simp add: pathWeightedClusters_def proc)
  then have route: "pathRoutes tr ing index [httpPath] =
      [createRouteForRevision (Name ing) index httpPath (pathWeightedClusters tr ing httpPath)]"
    by (simp add: pathRoutes_def)
  have rp: "rulePaths rule = Paths http"
    by (simp add: rulePaths_def assms(7))
  have rr: "ruleRoutes tr ing index rule =
      pathRoutes tr ing index before
      @ [createRouteForRevision (Name ing) index httpPath (pathWeightedClusters tr ing httpPath)]
      @ pathRoutes tr ing index after"
    unfolding ruleRoutes_def rp assms(8) pathRoutes_append
      pathRoutes_Cons [of tr ing index httpPath after] route ..
  then have routes: "ruleRoutes tr ing index rule \<noteq> []" by simp
  have rule: "snd (rulesLoop d tr ing index ext (rule # rules) (res, t)) =
      (if pathsPanic tr ing (Paths http) then Panic
       else snd (rulesLoop d tr ing index ext rules
              (addRules d tr ing index ext [rule] res,
               traceOf (pathsLoop tr ing index (Paths http) (res, [], t)))))"
  proof (cases "pathsPanic tr ing (Paths http)")
    case True
    then have "\<not> ruleOK tr ing index rule" by (simp add: ruleOK_def rp)
    from rulesLoop_stop [OF this, of d ext rules res t] True show ?thesis
      by (simp add: rp)
  next
    case False
    with routes have "ruleOK tr ing index rule" by (simp add: ruleOK_def rp assms(7))
    from rulesLoop_step [OF this, of d ext rules res t] False show ?thesis
      by (simp add: rp)
  qed
  have member: "?cluster ?path \<in> set (clusters plan)"
    if "rule \<in> set (Rules (Spec ing))
        \<and> snd (translateIngress d tr ing index ext) = Returned plan"
  proof -
    from that have run: "snd (translateIngress d tr ing index ext) = Returned plan"
      and r: "rule \<in> set (Rules (Spec ing))" by simp_all
    from translateIngress_Returned [OF run] have "plan = planOf d tr ing index ext" by simp
    then have "clusters plan = concat (map (ruleClusters tr ing) (Rules (Spec ing)))"
      by (simp add: planOf_def addRules_def newTranslatedIngress_def)
    moreover have "?cluster ?path \<in> set (pathClusters tr ing httpPath)"
      by (simp add: pathClusters_def proc c)
    then have "?cluster ?path \<in> set (ruleClusters tr ing rule)"
      by (auto simp: ruleClusters_def rp assms(8))
    ultimately show ?thesis using r by auto
  qed
  from ts [of path] numeric named step refs kept route rr rule member show ?thesis
    unfolding Let_def by blast
qed

theorem unmatched_port_is_no_failure_witness:
  "translateSplit exampleTranslator unmatchedPort ''/api'' (exampleSplit ''c'' 9999) =
     ([Call_Track \<lparr>Ref_Kind = ''Endpoints'', Ref_APIVersion = ''v1'',
                   Ref_Namespace = ''default'', Ref_Name = ''c''\<rparr>,
       Call_EndpointsGet ''default'' ''c'', Call_ServicesGet ''default'' ''c''],
      Emit (NewCluster ''c/api'' (5 * Second) [NewLBEndpoint ''10.0.0.7'' 0] False Cluster_STATIC)
           (NewWeightedCluster ''c/api'' 50 Map.empty))
   \<and> NewCluster ''c/api'' (5 * Second) [NewLBEndpoint ''10.0.0.7'' 0] False Cluster_STATIC
       \<in> set (clusters (planOf exampleDeps exampleTranslator unmatchedPort 0 False))
   \<and> translateSplit exampleTranslator unnamedPort ''/api'' (exampleSplit ''plain'' 9999) =
     ([Call_Track \<lparr>Ref_Kind = ''Endpoints'', Ref_APIVersion = ''v1'',
                   Ref_Namespace = ''default'', Ref_Name = ''plain''\<rparr>,
       Call_EndpointsGet ''default'' ''plain'', Call_ServicesGet ''default'' ''plain''],
      Emit (NewCluster ''plain/api'' (5 * Second) [NewLBEndpoint ''10.0.0.7'' 8080] False
              Cluster_STATIC)
           (NewWeightedCluster ''plain/api'' 50 Map.empty))"
proof -
  let ?a = "exampleSplit ''a'' 80"
  let ?c = "exampleSplit ''c'' 9999"
  let ?plain = "exampleSplit ''plain'' 9999"
  let ?first = "examplePath '''' [?a]"
  let ?api = "examplePath ''/api'' [?c]"
  let ?rule = "exampleRule ''ClusterLocal'' [?first, ?api]"
  let ?api' = "examplePath ''/api'' [?plain]"
  let ?rule' = "exampleRule ''ClusterLocal'' [?api']"
  have tracker: "tracker exampleTranslator =
      Some (\<lambda>ref ingress.
        if Ref_Name ref = ''untracked'' then Some (ErrOther ''invalid reference'') else None)"
    by (simp add: exampleTranslator_def NewIngressTranslator_def)
  have t: "\<not> trackFails exampleTranslator ing ?c" "\<not> trackFails exampleTranslator ing ?plain"
    for ing
    by (simp_all add: trackFails_def tracker exampleSplit_def)
  have e: "endpointsLister exampleTranslator (ServiceNamespace ?c) (ServiceName ?c)
             = Inr exampleEndpoints"
    "endpointsLister exampleTranslator (ServiceNamespace ?plain) (ServiceName ?plain)
             = Inr exampleEndpoints"
    by (simp_all add: exampleTranslator_def NewIngressTranslator_def exampleSplit_def)
  have s: "kubeclient exampleTranslator (ServiceNamespace ?c) (ServiceName ?c)
             = Inr exampleService"
    "kubeclient exampleTranslator (ServiceNamespace ?plain) (ServiceName ?plain)
             = Inr plainService"
    by (simp_all add: exampleTranslator_def NewIngressTranslator_def exampleSplit_def)
  have m: "list_all (\<lambda>port. \<not> declaredPortMatches (ServicePort ?c) port) (Ports exampleService)"
    "list_all (\<lambda>port. \<not> declaredPortMatches (ServicePort ?plain) port) (Ports plainService)"
    by (simp_all add: declaredPortMatches_def exampleSplit_def exampleService_def plainService_def)
  have position: "Splits ?api = [] @ ?c # []" "HTTP ?rule = Some \<lparr>Paths = [?first, ?api]\<rparr>"
    "Paths \<lparr>Paths = [?first, ?api]\<rparr> = [?first] @ ?api # []"
    "Splits ?api' = [] @ ?plain # []" "HTTP ?rule' = Some \<lparr>Paths = [?api']\<rparr>"
    "Paths \<lparr>Paths = [?api']\<rparr> = [] @ ?api' # []"
    by (simp_all add: exampleRule_def examplePath_def)
  have none: "list_all (\<lambda>split. \<not> splitFails exampleTranslator ing split) []" for ing
    by simp
  have numeric: "Type (ServicePort ?c) = Intstr_Int \<and> StrVal (ServicePort ?c) = ''''
      \<and> list_all (\<lambda>port. Port_Name port \<noteq> '''') (Ports exampleService)"
    by (simp add: exampleSplit_def exampleService_def)
  have others: "filter (undeclaredPortMatches (ServicePort ?plain)) (Ports plainService) =
      Ports plainService"
    by (simp add: undeclaredPortMatches_def exampleSplit_def plainService_def)
  have path: "effectivePath ?api = ''/api''"
    by (simp add: effectivePath_def examplePath_def)
  have rule: "?rule \<in> set (Rules (Spec unmatchedPort))"
    by (simp add: unmatchedPort_def exampleIngress_def)
  note c = unmatched_port_is_no_failure
    [OF t(1) e(1) s(1) m(1) position(1) none position(2,3), unfolded Let_def path,
     where path = "''/api''" and d = exampleDeps and index = 0 and ext = False
       and plan = "planOf exampleDeps exampleTranslator unmatchedPort 0 False"]
  from c [THEN conjunct2, THEN conjunct1] numeric
  have zero: "filter (undeclaredPortMatches (ServicePort ?c)) (Ports exampleService) = []"
    by (rule mp)
  from c [THEN conjunct1]
  have first: "translateSplit exampleTranslator unmatchedPort ''/api'' ?c =
     ([Call_Track \<lparr>Ref_Kind = ''Endpoints'', Ref_APIVersion = ''v1'',
                   Ref_Namespace = ''default'', Ref_Name = ''c''\<rparr>,
       Call_EndpointsGet ''default'' ''c'', Call_ServicesGet ''default'' ''c''],
      Emit (NewCluster ''c/api'' (5 * Second) [NewLBEndpoint ''10.0.0.7'' 0] False Cluster_STATIC)
           (NewWeightedCluster ''c/api'' 50 Map.empty))"
    unfolding zero
    by (simp add: tracker exampleSplit_def exampleEndpoints_def unmatchedPort_def
          exampleIngress_def lbEndpointsForKubeEndpoints_def)
  from c [THEN conjunct2, THEN conjunct2, THEN conjunct2, THEN conjunct2, THEN conjunct2,
      THEN conjunct2, THEN conjunct2, THEN conjunct2, THEN conjunct2] rule unmatchedPort_plan
  have second: "NewCluster ''c/api'' (5 * Second) [NewLBEndpoint ''10.0.0.7'' 0] False
      Cluster_STATIC \<in> set (clusters (planOf exampleDeps exampleTranslator unmatchedPort 0 False))"
    unfolding zero
    by (simp add: exampleSplit_def exampleEndpoints_def lbEndpointsForKubeEndpoints_def)
  from unmatched_port_is_no_failure
    [OF t(2) e(2) s(2) m(2) position(4) none position(5,6), unfolded Let_def others,
     where path = "''/api''", THEN conjunct1]
  have third: "translateSplit exampleTranslator unnamedPort ''/api'' ?plain =
     ([Call_Track \<lparr>Ref_Kind = ''Endpoints'', Ref_APIVersion = ''v1'',
                   Ref_Namespace = ''default'', Ref_Name = ''plain''\<rparr>,
       Call_EndpointsGet ''default'' ''plain'', Call_ServicesGet ''default'' ''plain''],
      Emit (NewCluster ''plain/api'' (5 * Second) [NewLBEndpoint ''10.0.0.7'' 8080] False
              Cluster_STATIC)
           (NewWeightedCluster ''plain/api'' 50 Map.empty))"
    by (simp add: tracker exampleSplit_def exampleEndpoints_def plainService_def unnamedPort_def
          exampleIngress_def lbEndpointsForKubeEndpoints_def)
  from first second third show ?thesis by (intro conjI)
qed

text \<open>
  Claim C6 does not hold of the translator that \<open>NewIngressTranslator\<close> builds.  When
  the secret of a TLS entry cannot be fetched or parsed, and the entries before it could,
  \<open>translateIngress\<close> logs the error before it returns it.  The constructor leaves
  \<open>logger\<close> \<open>nil\<close>, so the call panics at the log call and returns neither the
  error nor anything else.  With a logger in place the call returns that error and no
  plan, after one \<open>sslCreds\<close> call per entry up to the failing one (no call is
  repeated) and the log line of the error: the entries after it and the Rules are never
  looked at.
\<close>

theorem tls_failure_aborts:
  assumes "TLS (Spec ing) = pre @ bad # post"
    and "list_all (\<lambda>x. \<not> secretFails d x) pre"
    and "sslCreds d (SecretNamespace bad) (SecretName bad) = Inl err"
  shows "translateIngress d tr ing index ext =
     (case logger tr of
        None \<Rightarrow> (map secretCall pre @ [secretCall bad], Panic)
      | Some sink \<Rightarrow>
          (map secretCall pre @ [secretCall bad, Log_Errorf (Error err)], Failed err))"
  unfolding translateIngress_def Let_def assms(1) tlsLoop_fail [OF assms(2,3)]
  by (simp split: option.splits)

theorem tls_failure_aborts_witness:
  "translateIngress exampleDeps exampleTranslator missingSecret 0 False =
     ([Call_sslCreds ''default'' ''present'', Call_sslCreds ''default'' ''missing''], Panic)
   \<and> translateIngress exampleDeps loggingTranslator missingSecret 0 False =
     ([Call_sslCreds ''default'' ''present'', Call_sslCreds ''default'' ''missing'',
       Log_Errorf ''secrets missing not found''],
      Failed (ErrNotFound ''secrets missing not found''))"
proof -
  have tls: "TLS (Spec missingSecret) = [exampleTLS ''present''] @ exampleTLS ''missing'' # [exampleTLS ''later'']"
    by (simp add: missingSecret_def exampleIngress_def)
  have pre: "list_all (\<lambda>x. \<not> secretFails exampleDeps x) [exampleTLS ''present'']"
    by (simp add: secretFails_def exampleDeps_def exampleTLS_def)
  have bad: "sslCreds exampleDeps (SecretNamespace (exampleTLS ''missing''))
               (SecretName (exampleTLS ''missing'')) = Inl (ErrNotFound ''secrets missing not found'')"
    by (simp add: exampleDeps_def exampleTLS_def)
  have nil: "logger exampleTranslator = None"
    by (simp add: exampleTranslator_def NewIngressTranslator_def)
  have log: "logger loggingTranslator = Some SugaredLogger"
    by (simp add: loggingTranslator_def)
  from tls_failure_aborts [OF tls pre bad, of exampleTranslator 0 False]
    tls_failure_aborts [OF tls pre bad, of loggingTranslator 0 False]
  show ?thesis by (simp add: nil log secretCall_def exampleTLS_def)
qed





end
